theory Spec2Isabelle
  imports Main
begin

section \<open>Python values and exceptions\<close>

text \<open>
  The values \<^verbatim>\<open>yaml.safe_load\<close> builds from a settings document: \<^verbatim>\<open>None\<close>, booleans,
  integers, strings, byte strings (\<^verbatim>\<open>!!binary\<close>), lists and dictionaries. \<open>POther\<close> stands
  for the remaining objects (float, date, datetime, set), carried as their source text;
  none of them is a string or a path, and none has a \<^verbatim>\<open>get\<close> attribute. A dictionary is the list of its
  items in insertion order, the keys pairwise distinct. Strings are byte strings in
  UTF-8: every test the program makes on them is on ASCII characters.
\<close>

datatype pyval =
    PNone
  | PBool bool
  | PInt int
  | PStr string
  | PBytes string
  | POther string
  | PList "pyval list"
  | PDict "(pyval \<times> pyval) list"

text \<open>
  The exceptions the program can meet. \<open>CalledProcessError\<close> carries the exit status;
  \<open>OSError\<close>, \<open>YAMLError\<close> and \<open>PdfError\<close> carry the library's message.
  \<open>FileExistsError\<close> and \<open>UnicodeEncodeError\<close> are what creating a directory that is
  there, and printing to a console that cannot show the text, raise.
\<close>

datatype exn =
    TypeError
  | ValueError
  | AttributeError
  | CalledProcessError int
  | FileExistsError
  | UnicodeEncodeError
  | OSError string
  | YAMLError string
  | PdfError string

section \<open>Path and string functions of the standard library (posixpath)\<close>

definition startswith :: "string \<Rightarrow> string \<Rightarrow> bool" where
  "startswith s p = (take (length p) s = p)"

definition endswith :: "string \<Rightarrow> string \<Rightarrow> bool" where
  "endswith s suf = (length suf \<le> length s \<and> drop (length s - length suf) s = suf)"

text \<open>\<^verbatim>\<open>os.path.join(a, b)\<close> on two strings.\<close>

definition join :: "string \<Rightarrow> string \<Rightarrow> string" where
  "join a b =
     (if startswith b ''/'' then b
      else if a = [] \<or> endswith a ''/'' then a @ b
      else a @ ''/'' @ b)"

text \<open>\<^verbatim>\<open>p.rfind(c)\<close>: the last index of \<open>c\<close> in \<open>p\<close>, or \<open>-1\<close>.\<close>

fun rfind_from :: "char \<Rightarrow> string \<Rightarrow> int \<Rightarrow> int \<Rightarrow> int" where
  "rfind_from c [] i found = found"
| "rfind_from c (x # xs) i found = rfind_from c xs (i + 1) (if x = c then i else found)"

definition rfind :: "string \<Rightarrow> char \<Rightarrow> int" where
  "rfind p c = rfind_from c p 0 (-1)"

text \<open>
  \<^verbatim>\<open>os.path.splitext(p)\<close>: split at the last dot after the last slash, unless every
  character between that slash and the dot is itself a dot (leading dots of a name are
  not an extension).
\<close>

definition splitext :: "string \<Rightarrow> string \<times> string" where
  "splitext p =
     (let sepIndex = rfind p CHR ''/'';
          dotIndex = rfind p CHR ''.''
      in if dotIndex > sepIndex
            \<and> (\<exists>c \<in> set (take (nat (dotIndex - (sepIndex + 1))) (drop (nat (sepIndex + 1)) p)).
                  c \<noteq> CHR ''.'')
         then (take (nat dotIndex) p, drop (nat dotIndex) p)
         else (p, []))"

text \<open>\<^verbatim>\<open>s.split(c)\<close>: the pieces between the separators, empty pieces kept.\<close>

fun split_sep :: "char \<Rightarrow> string \<Rightarrow> string list" where
  "split_sep c [] = [[]]"
| "split_sep c (x # xs) =
     (if x = c then [] # split_sep c xs
      else (case split_sep c xs of
              [] \<Rightarrow> [[x]]
            | y # ys \<Rightarrow> (x # y) # ys))"

text \<open>\<^verbatim>\<open>sep.join(parts)\<close>.\<close>

fun sep_join :: "string \<Rightarrow> string list \<Rightarrow> string" where
  "sep_join s [] = []"
| "sep_join s [x] = x"
| "sep_join s (x # y # ys) = x @ s @ sep_join s (y # ys)"

text \<open>The loop of \<^verbatim>\<open>normpath\<close> over the components, \<open>new_comps\<close> as the accumulator.\<close>

fun normpath_comps :: "bool \<Rightarrow> string list \<Rightarrow> string list \<Rightarrow> string list" where
  "normpath_comps initial_slashes [] new_comps = new_comps"
| "normpath_comps initial_slashes (part # parts) new_comps =
     (if part = [] \<or> part = ''.'' then normpath_comps initial_slashes parts new_comps
      else if part \<noteq> ''..'' \<or> (\<not> initial_slashes \<and> new_comps = [])
              \<or> (new_comps \<noteq> [] \<and> last new_comps = ''..'')
      then normpath_comps initial_slashes parts (new_comps @ [part])
      else if new_comps \<noteq> [] then normpath_comps initial_slashes parts (butlast new_comps)
      else normpath_comps initial_slashes parts new_comps)"

definition normpath :: "string \<Rightarrow> string" where
  "normpath path =
     (if path = [] then ''.''
      else
        let initial_slashes =
              (if startswith path ''/'' then
                 (if startswith path ''//'' \<and> \<not> startswith path ''///'' then 2 else 1)
               else (0::nat));
            comps = normpath_comps (initial_slashes \<noteq> 0) (split_sep CHR ''/'' path) [];
            path' = replicate initial_slashes CHR ''/'' @ sep_join ''/'' comps
        in if path' = [] then ''.'' else path')"

text \<open>
  \<^verbatim>\<open>genericpath.commonprefix\<close> on two component lists, as the length of the result.
\<close>

fun commonprefix_len :: "string list \<Rightarrow> string list \<Rightarrow> nat" where
  "commonprefix_len (x # xs) (y # ys) = (if x = y then Suc (commonprefix_len xs ys) else 0)"
| "commonprefix_len _ _ = 0"

text \<open>
  \<^verbatim>\<open>os.path.relpath(path, start)\<close>, given the two absolute paths
  \<^verbatim>\<open>abspath(start)\<close> and \<^verbatim>\<open>abspath(path)\<close>.
\<close>

definition relpath_abs :: "string \<Rightarrow> string \<Rightarrow> string" where
  "relpath_abs abs_path abs_start =
     (let start_list = filter (\<lambda>x. x \<noteq> []) (split_sep CHR ''/'' abs_start);
          path_list = filter (\<lambda>x. x \<noteq> []) (split_sep CHR ''/'' abs_path);
          i = commonprefix_len start_list path_list;
          rel_list = replicate (length start_list - i) ''..'' @ drop i path_list
      in if rel_list = [] then ''.'' else sep_join ''/'' rel_list)"

section \<open>Directories\<close>

text \<open>
  A directory is named by the components of its absolute path: the path is joined to
  the working directory and normalised as \<^verbatim>\<open>os.path.normpath\<close> does (symbolic links
  aside). The empty list is the root. A directory and its ancestors are the prefixes of
  its components.
\<close>

definition path_key :: "string \<Rightarrow> string \<Rightarrow> string list" where
  "path_key working_dir path =
     normpath_comps True (split_sep CHR ''/'' (join working_dir path)) []"

fun path_prefixes :: "string list \<Rightarrow> string list list" where
  "path_prefixes [] = [[]]"
| "path_prefixes (c # cs) = [] # map ((#) c) (path_prefixes cs)"

text \<open>A set of directories that has, with each directory, all its ancestors.\<close>

definition closed_dirs :: "string list set \<Rightarrow> bool" where
  "closed_dirs d \<longleftrightarrow> (\<forall>k \<in> d. set (path_prefixes k) \<subseteq> d)"

section \<open>The environment: operating system, converter process and PDF library\<close>

text \<open>
  The permission record \<^verbatim>\<open>pikepdf.Permissions\<close> and the encryption record
  \<^verbatim>\<open>pikepdf.Encryption\<close>, with the library's fields. The owner password is whatever
  value the configuration gave.
\<close>

record permissions =
  accessibility :: bool
  extract' :: bool
  modify_annotation :: bool
  modify_assembly :: bool
  modify_form :: bool
  modify_other :: bool
  print_lowres :: bool
  print_highres :: bool

record encryption =
  owner :: pyval
  user :: string
  R :: nat
  allow :: permissions
  aes :: bool
  metadata :: bool

text \<open>
  The lines the program prints (the Russian texts of the source, by their meaning):
  \<^item> \<open>Msg_converted file\<close>: file converted to PDF;
  \<^item> \<open>Msg_not_found file\<close>: file was not converted, the resulting file was not found;
  \<^item> \<open>Msg_convert_error file\<close>: error while converting the file;
  \<^item> \<open>Msg_protected path\<close>: protection applied to the path.
\<close>

datatype msg =
    Msg_converted string
  | Msg_not_found string
  | Msg_convert_error string
  | Msg_protected string

text \<open>
  One entry of \<^verbatim>\<open>os.walk\<close>: the directory, its sub-directories, its other entries.
\<close>

type_synonym walk_item = "string \<times> string list \<times> string list"

text \<open>
  A run is the sequence of calls the program makes to the outside, each with the
  answer it got. An answer \<open>Inl e\<close> (or \<open>Some e\<close> for a call that returns nothing) is the
  exception the call raised.
  \<^item> \<open>Walk top r\<close>: \<^verbatim>\<open>next\<close> on the generator \<^verbatim>\<open>os.walk(top)\<close>; \<open>Inr None\<close> is the end of
    the traversal;
  \<^item> \<open>Getcwd r\<close>: \<^verbatim>\<open>os.getcwd()\<close>, called by \<^verbatim>\<open>os.path.abspath\<close> on a relative path;
  \<^item> \<open>Makedirs path exist_ok r\<close>: \<^verbatim>\<open>os.makedirs(path, exist_ok=exist_ok)\<close>;
  \<^item> \<open>Shell cmd r\<close>: the shell runs \<open>cmd\<close> and is waited for; \<open>Inr rc\<close> is its exit status;
  \<^item> \<open>IsFile path r\<close>: \<^verbatim>\<open>Path(path).is_file()\<close>;
  \<^item> \<open>Print m\<close>: \<^verbatim>\<open>print\<close> wrote the line to the console;
  \<^item> \<open>PrintRaised m e\<close>: \<^verbatim>\<open>print\<close> raised \<open>e\<close> on that line (a closed pipe, a console
    that cannot encode the text);
  \<^item> \<open>Mkdir path parents exist_ok r\<close>:
    \<^verbatim>\<open>Path(path).mkdir(parents=parents, exist_ok=exist_ok)\<close>;
  \<^item> \<open>PdfOpen path overwrite r\<close>: \<^verbatim>\<open>pikepdf.open(path, allow_overwriting_input=overwrite)\<close>,
    \<open>Inr pdf\<close> the handle of the opened document;
  \<^item> \<open>PdfSave pdf path enc r\<close>: \<^verbatim>\<open>pdf.save(path, encryption=enc)\<close>;
  \<^item> \<open>PdfClose pdf\<close>: the document is closed when its \<^verbatim>\<open>with\<close> block is left;
  \<^item> \<open>FileOpen path r\<close>: \<^verbatim>\<open>open(path, 'r')\<close>, \<open>Inr f\<close> the handle of the file;
  \<^item> \<open>SafeLoad f r\<close>: \<^verbatim>\<open>yaml.safe_load(f)\<close>;
  \<^item> \<open>FileClose f\<close>: the file is closed when its \<^verbatim>\<open>with\<close> block is left.
\<close>

datatype event =
    Walk string "exn + walk_item option"
  | Getcwd "exn + string"
  | Makedirs string bool "exn option"
  | Shell string "exn + int"
  | IsFile string "exn + bool"
  | Print msg
  | PrintRaised msg exn
  | Mkdir string bool bool "exn option"
  | PdfOpen string bool "exn + nat"
  | PdfSave nat string encryption "exn option"
  | PdfClose nat
  | FileOpen string "exn + nat"
  | SafeLoad nat "exn + pyval"
  | FileClose nat

text \<open>
  The outside world answers each call from everything that has happened so far: the
  state of the file system, of the console, of the converter and of the PDF library is
  a function of the calls already made. It has a working directory \<open>cwd\<close>, which the
  program never changes, and directories \<open>initial_dirs\<close> that are there when the run
  starts. \<open>shell_keeps\<close> says which of the directories known to be there a converter
  process leaves in place. \<open>makedirs_r\<close> and \<open>mkdir_r\<close> answer for a directory that is
  not known to be there. Nothing else is assumed about it.
\<close>

record env =
  cwd :: string
  initial_dirs :: "string list set"
  walk_r :: "event list \<Rightarrow> string \<Rightarrow> exn + walk_item option"
  getcwd_r :: "event list \<Rightarrow> exn option"
  makedirs_r :: "event list \<Rightarrow> string \<Rightarrow> bool \<Rightarrow> exn option"
  shell_r :: "event list \<Rightarrow> string \<Rightarrow> exn + int"
  shell_keeps :: "event list \<Rightarrow> string \<Rightarrow> string list \<Rightarrow> bool"
  is_file_r :: "event list \<Rightarrow> string \<Rightarrow> exn + bool"
  print_r :: "event list \<Rightarrow> msg \<Rightarrow> exn option"
  mkdir_r :: "event list \<Rightarrow> string \<Rightarrow> bool \<Rightarrow> bool \<Rightarrow> exn option"
  pdf_open_r :: "event list \<Rightarrow> string \<Rightarrow> bool \<Rightarrow> exn + nat"
  pdf_save_r :: "event list \<Rightarrow> nat \<Rightarrow> string \<Rightarrow> encryption \<Rightarrow> exn option"
  file_open_r :: "event list \<Rightarrow> string \<Rightarrow> exn + nat"
  safe_load_r :: "event list \<Rightarrow> nat \<Rightarrow> exn + pyval"

text \<open>
  A statement of the program, run after the calls \<open>h\<close>, gives its result (or the
  exception it raised) and the calls made by then.
\<close>

type_synonym 'a res = "(exn + 'a) \<times> event list"

text \<open>
  The directories known to be there after the calls \<open>h\<close>. A directory is there only
  with all its ancestors. The run starts with \<open>initial_dirs\<close> and their ancestors; a
  successful \<^verbatim>\<open>os.makedirs\<close> or \<^verbatim>\<open>mkdir\<close> leaves the directory with all its
  ancestors there; a converter process leaves the directories that \<open>shell_keeps\<close>
  keeps with all their ancestors; no other call of the program removes or creates a
  directory.
\<close>

fun fs_step :: "env \<Rightarrow> event list \<Rightarrow> string list set \<Rightarrow> event \<Rightarrow> string list set" where
  "fs_step E h d (Makedirs path exist_ok r) =
     (if r = None then d \<union> set (path_prefixes (path_key (cwd E) path)) else d)"
| "fs_step E h d (Mkdir path parents exist_ok r) =
     (if r = None then d \<union> set (path_prefixes (path_key (cwd E) path)) else d)"
| "fs_step E h d (Shell cmd r) =
     {k \<in> d. list_all (shell_keeps E h cmd) (path_prefixes k)}"
| "fs_step E h d e = d"

fun dirs_rev :: "env \<Rightarrow> event list \<Rightarrow> string list set" where
  "dirs_rev E [] = (\<Union>k \<in> initial_dirs E. set (path_prefixes k))"
| "dirs_rev E (e # earlier) = fs_step E (rev earlier) (dirs_rev E earlier) e"

definition dirs_of :: "env \<Rightarrow> event list \<Rightarrow> string list set" where
  "dirs_of E h = dirs_rev E (rev h)"

text \<open>
  \<^verbatim>\<open>os.makedirs(path, exist_ok=exist_ok)\<close>. On a directory that is there, the call
  returns when \<^verbatim>\<open>exist_ok\<close> is set and raises \<^verbatim>\<open>FileExistsError\<close> when it is not;
  otherwise the operating system decides.
\<close>

definition makedirs_answer :: "env \<Rightarrow> string \<Rightarrow> bool \<Rightarrow> event list \<Rightarrow> exn option" where
  "makedirs_answer E path exist_ok h =
     (if path_key (cwd E) path \<in> dirs_of E h
      then (if exist_ok then None else Some FileExistsError)
      else makedirs_r E h path exist_ok)"

definition makedirs :: "env \<Rightarrow> string \<Rightarrow> bool \<Rightarrow> event list \<Rightarrow> unit res" where
  "makedirs E path exist_ok h =
     (case makedirs_answer E path exist_ok h of
        None \<Rightarrow> (Inr (), h @ [Makedirs path exist_ok None])
      | Some e \<Rightarrow> (Inl e, h @ [Makedirs path exist_ok (Some e)]))"

text \<open>\<^verbatim>\<open>Path(path).mkdir(parents=parents, exist_ok=exist_ok)\<close>, in the same way.\<close>

definition mkdir_answer :: "env \<Rightarrow> string \<Rightarrow> bool \<Rightarrow> bool \<Rightarrow> event list \<Rightarrow> exn option" where
  "mkdir_answer E path parents exist_ok h =
     (if path_key (cwd E) path \<in> dirs_of E h
      then (if exist_ok then None else Some FileExistsError)
      else mkdir_r E h path parents exist_ok)"

definition path_mkdir :: "env \<Rightarrow> string \<Rightarrow> bool \<Rightarrow> bool \<Rightarrow> event list \<Rightarrow> unit res" where
  "path_mkdir E path parents exist_ok h =
     (case mkdir_answer E path parents exist_ok h of
        None \<Rightarrow> (Inr (), h @ [Mkdir path parents exist_ok None])
      | Some e \<Rightarrow> (Inl e, h @ [Mkdir path parents exist_ok (Some e)]))"

text \<open>\<^verbatim>\<open>print(line)\<close>: the line is written, or the call raises.\<close>

definition print_line :: "env \<Rightarrow> msg \<Rightarrow> event list \<Rightarrow> unit res" where
  "print_line E m h =
     (case print_r E h m of
        None \<Rightarrow> (Inr (), h @ [Print m])
      | Some e \<Rightarrow> (Inl e, h @ [PrintRaised m e]))"

text \<open>\<^verbatim>\<open>os.path.abspath(path)\<close>.\<close>

definition abspath :: "env \<Rightarrow> string \<Rightarrow> event list \<Rightarrow> string res" where
  "abspath E path h =
     (if startswith path ''/'' then (Inr (normpath path), h)
      else (case getcwd_r E h of
              Some e \<Rightarrow> (Inl e, h @ [Getcwd (Inl e)])
            | None \<Rightarrow> (Inr (normpath (join (cwd E) path)), h @ [Getcwd (Inr (cwd E))])))"

text \<open>
  \<^verbatim>\<open>os.path.relpath(path, start)\<close>: \<^verbatim>\<open>ValueError\<close> on an empty path; the start is made
  absolute first, then the path.
\<close>

definition relpath :: "env \<Rightarrow> string \<Rightarrow> string \<Rightarrow> event list \<Rightarrow> string res" where
  "relpath E path start h =
     (if path = [] then (Inl ValueError, h)
      else (case abspath E start h of
              (Inl e, h1) \<Rightarrow> (Inl e, h1)
            | (Inr abs_start, h1) \<Rightarrow>
                (case abspath E path h1 of
                   (Inl e, h2) \<Rightarrow> (Inl e, h2)
                 | (Inr abs_path, h2) \<Rightarrow> (Inr (relpath_abs abs_path abs_start), h2))))"

section \<open>Config\<close>

record Config =
  config :: pyval

text \<open>
  \<^verbatim>\<open>Config.__init__\<close>: open the file, parse it, keep the parsed document as it is. The
  file is closed when the \<^verbatim>\<open>with\<close> block is left, also by an exception.
\<close>

definition Config_init :: "env \<Rightarrow> string \<Rightarrow> event list \<Rightarrow> Config res" where
  "Config_init E config_path h =
     (case file_open_r E h config_path of
        Inl e \<Rightarrow> (Inl e, h @ [FileOpen config_path (Inl e)])
      | Inr f \<Rightarrow>
          (let h1 = h @ [FileOpen config_path (Inr f)] in
           case safe_load_r E h1 f of
             Inl e \<Rightarrow> (Inl e, h1 @ [SafeLoad f (Inl e), FileClose f])
           | Inr doc \<Rightarrow> (Inr \<lparr>config = doc\<rparr>, h1 @ [SafeLoad f (Inr doc), FileClose f])))"

text \<open>
  \<^verbatim>\<open>Config.get\<close>: \<^verbatim>\<open>self.config.get(key)\<close>. A dictionary answers with the value of the
  key, or \<^verbatim>\<open>None\<close> when it has no such key; no other value has a \<^verbatim>\<open>get\<close> attribute.
\<close>

fun Config_get :: "Config \<Rightarrow> string \<Rightarrow> exn + pyval" where
  "Config_get self key =
     (case config self of
        PDict items \<Rightarrow>
          (case map_of items (PStr key) of
             None \<Rightarrow> Inr PNone
           | Some v \<Rightarrow> Inr v)
      | _ \<Rightarrow> Inl AttributeError)"

section \<open>PDFConverter\<close>

record PDFConverter =
  source_dir :: pyval
  dist_dir :: pyval
  convert_command_prefix :: string

text \<open>
  The command line of \<^verbatim>\<open>_convert_file\<close>:
  \<^verbatim>\<open>f'{prefix} --convert-to pdf --outdir "{target_dir}" "{source_file}"'\<close>.
\<close>

definition convert_command :: "string \<Rightarrow> string \<Rightarrow> string \<Rightarrow> string" where
  "convert_command prefix target_dir source_file =
     prefix @ '' --convert-to pdf --outdir '' @ [CHR 0x22] @ target_dir @ [CHR 0x22]
       @ '' '' @ [CHR 0x22] @ source_file @ [CHR 0x22]"

text \<open>The path \<^verbatim>\<open>target_file\<close> that \<^verbatim>\<open>_convert_file\<close> expects the converter to write.\<close>

definition target_file :: "string \<Rightarrow> string \<Rightarrow> string" where
  "target_file file target_dir = join target_dir (fst (splitext file) @ ''.pdf'')"

text \<open>
  \<^verbatim>\<open>PDFConverter._convert_file\<close> (here \<open>convert_file\<close>, its \<^verbatim>\<open>try\<close> block being
  \<open>convert_file_try\<close>). \<^verbatim>\<open>subprocess.run(..., shell=True, check=True)\<close> raises
  \<^verbatim>\<open>CalledProcessError\<close> on a non-zero exit status; the \<^verbatim>\<open>except\<close> clause catches that
  class of exception, raised anywhere in the \<^verbatim>\<open>try\<close> block, and nothing else. An
  exception raised by the \<^verbatim>\<open>print\<close> of the handler is not caught.
\<close>

definition convert_file_try :: "env \<Rightarrow> string \<Rightarrow> string \<Rightarrow> string \<Rightarrow> event list
    \<Rightarrow> string option res" where
  "convert_file_try E cmd file tfile h =
     (case shell_r E h cmd of
        Inl e \<Rightarrow> (Inl e, h @ [Shell cmd (Inl e)])
      | Inr rc \<Rightarrow>
          (let h1 = h @ [Shell cmd (Inr rc)] in
           if rc \<noteq> 0 then (Inl (CalledProcessError rc), h1)
           else (case is_file_r E h1 tfile of
                   Inl e \<Rightarrow> (Inl e, h1 @ [IsFile tfile (Inl e)])
                 | Inr True \<Rightarrow>
                     (case print_line E (Msg_converted file) (h1 @ [IsFile tfile (Inr True)]) of
                        (Inl e, h2) \<Rightarrow> (Inl e, h2)
                      | (Inr _, h2) \<Rightarrow> (Inr (Some tfile), h2))
                 | Inr False \<Rightarrow>
                     (case print_line E (Msg_not_found file) (h1 @ [IsFile tfile (Inr False)]) of
                        (Inl e, h2) \<Rightarrow> (Inl e, h2)
                      | (Inr _, h2) \<Rightarrow> (Inr None, h2)))))"

definition convert_file :: "env \<Rightarrow> PDFConverter \<Rightarrow> string \<Rightarrow> string \<Rightarrow> string \<Rightarrow> event list
    \<Rightarrow> string option res" where
  "convert_file E self root file target_dir h =
     (let source_file = join root file;
          tfile = target_file file target_dir;
          cmd = convert_command (convert_command_prefix self) target_dir source_file
      in case convert_file_try E cmd file tfile h of
           (Inl e, h1) \<Rightarrow>
             (case e of
                CalledProcessError rc \<Rightarrow>
                  (case print_line E (Msg_convert_error file) h1 of
                     (Inl e', h2) \<Rightarrow> (Inl e', h2)
                   | (Inr _, h2) \<Rightarrow> (Inr None, h2))
              | _ \<Rightarrow> (Inl e, h1))
         | (Inr pdf_path, h1) \<Rightarrow> (Inr pdf_path, h1))"

text \<open>
  The inner loop of \<^verbatim>\<open>convert\<close> over the files of one directory; \<open>converted_files\<close> is
  the list so far. \<^verbatim>\<open>if pdf_path:\<close> holds for a string that is not empty.
\<close>

fun convert_files :: "env \<Rightarrow> PDFConverter \<Rightarrow> string \<Rightarrow> string list \<Rightarrow> string
    \<Rightarrow> string list \<Rightarrow> event list \<Rightarrow> string list res" where
  "convert_files E self root [] target_dir converted_files h = (Inr converted_files, h)"
| "convert_files E self root (file # files) target_dir converted_files h =
     (if endswith file ''.pptx'' then
        (case convert_file E self root file target_dir h of
           (Inl e, h1) \<Rightarrow> (Inl e, h1)
         | (Inr pdf_path, h1) \<Rightarrow>
             convert_files E self root files target_dir
               (case pdf_path of
                  None \<Rightarrow> converted_files
                | Some p \<Rightarrow> if p \<noteq> [] then converted_files @ [p] else converted_files)
               h1)
      else convert_files E self root files target_dir converted_files h)"

text \<open>
  \<^verbatim>\<open>os.walk\<close> takes a string or a byte string and gives names of the same kind.
  \<^verbatim>\<open>os.path.join\<close> takes two strings or two byte strings and raises \<^verbatim>\<open>TypeError\<close> on
  anything else: \<open>path_text bytes_paths v\<close> is the text of \<open>v\<close> when it is of the kind the
  traversal gives.
\<close>

definition path_text :: "bool \<Rightarrow> pyval \<Rightarrow> string option" where
  "path_text bytes_paths v =
     (case v of
        PStr s \<Rightarrow> if bytes_paths then None else Some s
      | PBytes s \<Rightarrow> if bytes_paths then Some s else None
      | _ \<Rightarrow> None)"

text \<open>
  The body of the outer loop for one entry of the traversal: the relative path, the
  mirrored directory, its creation, then the files. On names that are byte strings,
  \<^verbatim>\<open>file.endswith(".pptx")\<close> raises \<^verbatim>\<open>TypeError\<close> at the first file.
\<close>

definition convert_dir :: "env \<Rightarrow> PDFConverter \<Rightarrow> bool \<Rightarrow> string \<Rightarrow> string \<Rightarrow> string list
    \<Rightarrow> string list \<Rightarrow> event list \<Rightarrow> string list res" where
  "convert_dir E self bytes_paths src root files converted_files h =
     (case relpath E root src h of
        (Inl e, h1) \<Rightarrow> (Inl e, h1)
      | (Inr relative_path, h1) \<Rightarrow>
          (case path_text bytes_paths (dist_dir self) of
             None \<Rightarrow> (Inl TypeError, h1)
           | Some dist \<Rightarrow>
               (let target_dir = join dist relative_path in
                case makedirs E target_dir True h1 of
                  (Inl e, h2) \<Rightarrow> (Inl e, h2)
                | (Inr _, h2) \<Rightarrow>
                    if bytes_paths then
                      (case files of
                         [] \<Rightarrow> (Inr converted_files, h2)
                       | file # _ \<Rightarrow> (Inl TypeError, h2))
                    else convert_files E self root files target_dir converted_files h2)))"

text \<open>
  The outer loop of \<^verbatim>\<open>convert\<close>: \<^verbatim>\<open>for root, _, files in os.walk(src)\<close>. The traversal
  is lazy: each directory is listed when the loop reaches it, after the conversions
  before it. Nothing bounds the number of entries the traversal gives, so the loop need
  not end: then the result is \<open>None\<close>.
\<close>

partial_function (option) convert_walk :: "env \<Rightarrow> PDFConverter \<Rightarrow> bool \<Rightarrow> string
    \<Rightarrow> string list \<Rightarrow> event list \<Rightarrow> string list res option" where
  "convert_walk E self bytes_paths src converted_files h =
     (case walk_r E h src of
        Inl e \<Rightarrow> Some (Inl e, h @ [Walk src (Inl e)])
      | Inr None \<Rightarrow> Some (Inr converted_files, h @ [Walk src (Inr None)])
      | Inr (Some (root, dirs, files)) \<Rightarrow>
          (case convert_dir E self bytes_paths src root files converted_files
                  (h @ [Walk src (Inr (Some (root, dirs, files)))]) of
             (Inl e, h1) \<Rightarrow> Some (Inl e, h1)
           | (Inr converted_files', h1) \<Rightarrow>
               convert_walk E self bytes_paths src converted_files' h1))"

declare convert_walk.simps [code]

text \<open>
  \<^verbatim>\<open>PDFConverter.convert\<close>. \<^verbatim>\<open>os.walk\<close> raises \<^verbatim>\<open>TypeError\<close> on a \<open>source_dir\<close> that is
  neither a string nor a byte string.
\<close>

definition convert :: "env \<Rightarrow> PDFConverter \<Rightarrow> event list \<Rightarrow> string list res option" where
  "convert E self h =
     (case source_dir self of
        PStr src \<Rightarrow> convert_walk E self False src [] h
      | PBytes src \<Rightarrow> convert_walk E self True src [] h
      | _ \<Rightarrow> Some (Inl TypeError, h))"

section \<open>PDFProtector\<close>

record PDFProtector =
  owner_password :: pyval

text \<open>
  The value \<^verbatim>\<open>pikepdf.Encryption(owner=..., allow=pikepdf.Permissions(...))\<close> that
  \<^verbatim>\<open>protect\<close> builds: seven permissions are given as \<^verbatim>\<open>False\<close>; the fields the call does
  not give keep the library's defaults (\<^verbatim>\<open>accessibility=True\<close>, \<^verbatim>\<open>user=''\<close>, \<^verbatim>\<open>R=6\<close>,
  \<^verbatim>\<open>aes=True\<close>, \<^verbatim>\<open>metadata=True\<close>).
\<close>

definition protect_encryption :: "PDFProtector \<Rightarrow> encryption" where
  "protect_encryption self =
     \<lparr>owner = owner_password self,
      user = [],
      R = 6,
      allow = \<lparr>accessibility = True,
               extract' = False,
               modify_annotation = False,
               modify_assembly = False,
               modify_form = False,
               modify_other = False,
               print_lowres = False,
               print_highres = False\<rparr>,
      aes = True,
      metadata = True\<rparr>"

text \<open>
  \<^verbatim>\<open>PDFProtector.protect\<close>: the document is opened, saved to the path it was opened from
  and closed when the \<^verbatim>\<open>with\<close> block is left, also by an exception; no exception is
  caught, that of the \<^verbatim>\<open>print\<close> after the save included.
\<close>

definition protect :: "env \<Rightarrow> PDFProtector \<Rightarrow> string \<Rightarrow> event list \<Rightarrow> unit res" where
  "protect E self pdf_path h =
     (case pdf_open_r E h pdf_path True of
        Inl e \<Rightarrow> (Inl e, h @ [PdfOpen pdf_path True (Inl e)])
      | Inr pdf \<Rightarrow>
          (let h1 = h @ [PdfOpen pdf_path True (Inr pdf)];
               enc = protect_encryption self
           in case pdf_save_r E h1 pdf pdf_path enc of
                Some e \<Rightarrow> (Inl e, h1 @ [PdfSave pdf pdf_path enc (Some e), PdfClose pdf])
              | None \<Rightarrow>
                  (case print_line E (Msg_protected pdf_path)
                          (h1 @ [PdfSave pdf pdf_path enc None]) of
                     (Inl e, h2) \<Rightarrow> (Inl e, h2 @ [PdfClose pdf])
                   | (Inr _, h2) \<Rightarrow> (Inr (), h2 @ [PdfClose pdf]))))"

section \<open>App\<close>

record App =
  App_config :: Config
  converter :: PDFConverter
  protector :: PDFProtector

text \<open>
  \<^verbatim>\<open>App.__init__\<close>: the configuration is loaded, the three settings are looked up and
  handed to the converter and the protector as they are.
\<close>

definition App_init :: "env \<Rightarrow> string \<Rightarrow> event list \<Rightarrow> App res" where
  "App_init E config_path h =
     (case Config_init E config_path h of
        (Inl e, h1) \<Rightarrow> (Inl e, h1)
      | (Inr cfg, h1) \<Rightarrow>
          (case Config_get cfg ''source_dir'' of
             Inl e \<Rightarrow> (Inl e, h1)
           | Inr sd \<Rightarrow>
               (case Config_get cfg ''dist_dir'' of
                  Inl e \<Rightarrow> (Inl e, h1)
                | Inr dd \<Rightarrow>
                    (case Config_get cfg ''owner_password'' of
                       Inl e \<Rightarrow> (Inl e, h1)
                     | Inr pw \<Rightarrow>
                         (Inr \<lparr>App_config = cfg,
                               converter = \<lparr>source_dir = sd, dist_dir = dd,
                                  convert_command_prefix = ''/opt/homebrew/bin/soffice''\<rparr>,
                               protector = \<lparr>owner_password = pw\<rparr>\<rparr>, h1)))))"

text \<open>The loop of \<^verbatim>\<open>run\<close> over the converted files.\<close>

fun protect_all :: "env \<Rightarrow> PDFProtector \<Rightarrow> string list \<Rightarrow> event list \<Rightarrow> unit res" where
  "protect_all E p [] h = (Inr (), h)"
| "protect_all E p (pdf_path # rest) h =
     (case protect E p pdf_path h of
        (Inl e, h1) \<Rightarrow> (Inl e, h1)
      | (Inr _, h1) \<Rightarrow> protect_all E p rest h1)"

text \<open>
  \<^verbatim>\<open>App.run\<close>. \<^verbatim>\<open>Path(x)\<close> raises \<^verbatim>\<open>TypeError\<close> on a value that is not a string (a
  byte string included). The result is \<open>None\<close> when the conversion loop does not end.
\<close>

definition run :: "env \<Rightarrow> App \<Rightarrow> event list \<Rightarrow> unit res option" where
  "run E self h =
     (case Config_get (App_config self) ''dist_dir'' of
        Inl e \<Rightarrow> Some (Inl e, h)
      | Inr (PStr dist) \<Rightarrow>
          (case path_mkdir E dist True True h of
             (Inl e, h0) \<Rightarrow> Some (Inl e, h0)
           | (Inr _, h0) \<Rightarrow>
               (case convert E (converter self) h0 of
                  None \<Rightarrow> None
                | Some (Inl e, h1) \<Rightarrow> Some (Inl e, h1)
                | Some (Inr converted_files, h1) \<Rightarrow>
                    Some (protect_all E (protector self) converted_files h1)))
      | Inr _ \<Rightarrow> Some (Inl TypeError, h))"

text \<open>The entry point: \<^verbatim>\<open>App('config.yaml').run()\<close>.\<close>

definition main :: "env \<Rightarrow> event list \<Rightarrow> unit res option" where
  "main E h =
     (case App_init E ''config.yaml'' h of
        (Inl e, h1) \<Rightarrow> Some (Inl e, h1)
      | (Inr app, h1) \<Rightarrow> run E app h1)"

section \<open>Reading the trace of a run\<close>

text \<open>The calls a file conversion makes: the converter process, the check, the report.\<close>

fun conversion_event :: "event \<Rightarrow> bool" where
  "conversion_event (Shell cmd r) = True"
| "conversion_event (IsFile path r) = True"
| "conversion_event (Print m) = True"
| "conversion_event (PrintRaised m e) = True"
| "conversion_event _ = False"

fun is_Walk :: "event \<Rightarrow> bool" where
  "is_Walk (Walk t r) = True"
| "is_Walk _ = False"

text \<open>
  A trace shows the conversion that produced \<open>p\<close>: the converter process for a file
  named \<^verbatim>\<open>*.pptx\<close> left with status zero, and the check that came next found the
  file \<open>p\<close> it was to write.
\<close>

definition converted_in :: "PDFConverter \<Rightarrow> event list \<Rightarrow> string \<Rightarrow> bool" where
  "converted_in self t p \<longleftrightarrow>
     (\<exists>pre root file target_dir post.
        endswith file ''.pptx'' \<and> p = target_file file target_dir \<and>
        t = pre @ Shell (convert_command (convert_command_prefix self) target_dir
                           (join root file)) (Inr 0)
                # IsFile p (Inr True) # post)"

text \<open>
  The calls of one successful \<^verbatim>\<open>protect\<close> on \<open>pdf_path\<close>, \<open>pdf\<close> being the handle the
  library gave.
\<close>

definition protect_events :: "PDFProtector \<Rightarrow> string \<Rightarrow> nat \<Rightarrow> event list" where
  "protect_events self pdf_path pdf =
     [PdfOpen pdf_path True (Inr pdf),
      PdfSave pdf pdf_path (protect_encryption self) None,
      Print (Msg_protected pdf_path),
      PdfClose pdf]"

section \<open>Notions of the specification\<close>

text \<open>\<^verbatim>\<open>str.lower\<close> on ASCII letters, to speak of the case variants of an extension.\<close>

definition lower_char :: "char \<Rightarrow> char" where
  "lower_char c =
     (case map_of (zip ''ABCDEFGHIJKLMNOPQRSTUVWXYZ'' ''abcdefghijklmnopqrstuvwxyz'') c of
        Some l \<Rightarrow> l
      | None \<Rightarrow> c)"

definition str_lower :: "string \<Rightarrow> string" where
  "str_lower s = map lower_char s"

text \<open>
  The destination name in the words of the specification: the name of a presentation
  file with its extension \<^verbatim>\<open>.pptx\<close> replaced by \<^verbatim>\<open>.pdf\<close>.
\<close>

definition replace_extension :: "string \<Rightarrow> string" where
  "replace_extension file = take (length file - length ''.pptx'') file @ ''.pdf''"



section \<open>A sample environment\<close>

text \<open>
  A source tree \<^verbatim>\<open>src\<close> with the directory \<^verbatim>\<open>a\<close> (five entries) and inside it \<^verbatim>\<open>b\<close> (one
  entry), in the order the traversal lists them. The converter fails on \<^verbatim>\<open>bad.pptx\<close>,
  and exits with status zero on \<^verbatim>\<open>ghost.pptx\<close> without writing its output.
\<close>

definition demo_walk :: "walk_item list" where
  "demo_walk =
     [(''src'', [''a''], []),
      (''src/a'', [''b''],
         [''one.pptx'', ''notes.txt'', ''bad.pptx'', ''ghost.pptx'', ''SHOUT.PPTX'']),
      (''src/a/b'', [], [''two.pptx''])]"

definition demo_config :: pyval where
  "demo_config =
     PDict [(PStr ''source_dir'', PStr ''src''),
            (PStr ''dist_dir'', PStr ''out''),
            (PStr ''owner_password'', PStr ''secret'')]"

definition demo_env :: env where
  "demo_env =
     \<lparr>cwd = ''/home/user'',
      initial_dirs = {[''home'', ''user'']},
      walk_r = (\<lambda>h t. let n = length (filter is_Walk h)
                         in if n < length demo_walk then Inr (Some (demo_walk ! n))
                            else Inr None),
      getcwd_r = (\<lambda>h. None),
      makedirs_r = (\<lambda>h path exist_ok. None),
      shell_r = (\<lambda>h cmd.
         if cmd = convert_command ''/opt/homebrew/bin/soffice'' ''out/a'' ''src/a/bad.pptx''
         then Inr 1 else Inr 0),
      shell_keeps = (\<lambda>h cmd k. True),
      is_file_r = (\<lambda>h path. Inr (path \<noteq> ''out/a/ghost.pdf'')),
      print_r = (\<lambda>h m. None),
      mkdir_r = (\<lambda>h path parents exist_ok. None),
      pdf_open_r = (\<lambda>h path overwrite. Inr (length h)),
      pdf_save_r = (\<lambda>h pdf path enc. None),
      file_open_r = (\<lambda>h path. Inr 3),
      safe_load_r = (\<lambda>h f. Inr demo_config)\<rparr>"

text \<open>The same environment with a PDF library that cannot save \<^verbatim>\<open>out/a/one.pdf\<close>.\<close>

definition demo_env_unwritable :: env where
  "demo_env_unwritable =
     demo_env\<lparr>pdf_save_r :=
       (\<lambda>h pdf path enc. if path = ''out/a/one.pdf'' then Some (PdfError ''unwritable'')
                           else None)\<rparr>"

text \<open>The same environment with a console that is closed.\<close>

definition demo_env_mute :: env where
  "demo_env_mute = demo_env\<lparr>print_r := (\<lambda>h m. Some (OSError ''Broken pipe''))\<rparr>"

text \<open>The same environment on a file system that refuses every new directory.\<close>

definition demo_env_readonly :: env where
  "demo_env_readonly =
     demo_env\<lparr>makedirs_r := (\<lambda>h path exist_ok. Some (OSError ''Read-only file system'')),
               mkdir_r := (\<lambda>h path parents exist_ok. Some (OSError ''Read-only file system''))\<rparr>"

text \<open>The same environment with a settings file that gives the source directory only.\<close>

definition demo_env_partial :: env where
  "demo_env_partial =
     demo_env\<lparr>safe_load_r := (\<lambda>h f. Inr (PDict [(PStr ''source_dir'', PStr ''src'')]))\<rparr>"

definition demo_converter :: PDFConverter where
  "demo_converter =
     \<lparr>source_dir = PStr ''src'', dist_dir = PStr ''out'',
      convert_command_prefix = ''/opt/homebrew/bin/soffice''\<rparr>"

definition demo_app :: App where
  "demo_app =
     \<lparr>App_config = \<lparr>config = demo_config\<rparr>,
      converter = demo_converter,
      protector = \<lparr>owner_password = PStr ''secret''\<rparr>\<rparr>"

section \<open>Strings\<close>

lemma endswith_same_length:
  "length suf' = length suf \<Longrightarrow> endswith (stem @ suf') suf \<longleftrightarrow> suf' = suf"
  by (simp add: endswith_def)

lemma length_str_lower: "length (str_lower s) = length s"
  by (simp add: str_lower_def)

text \<open>
  The path \<^verbatim>\<open>_convert_file\<close> returns is never the empty string: the test
  \<^verbatim>\<open>if pdf_path:\<close> of \<^verbatim>\<open>convert\<close> holds for every path returned.
\<close>

lemma join_nonempty: "b \<noteq> [] \<Longrightarrow> join a b \<noteq> []"
  by (simp add: join_def)

lemma target_file_nonempty: "target_file file target_dir \<noteq> []"
  by (simp add: target_file_def join_nonempty)

lemma rfind_from_absent:
  "c \<notin> set xs \<Longrightarrow> rfind_from c xs i found = found"
  by (induction xs arbitrary: i found) auto

lemma rfind_from_last:
  "c \<notin> set ys \<Longrightarrow> rfind_from c (xs @ c # ys) i found = i + int (length xs)"
  by (induction xs arbitrary: i found) (auto simp: rfind_from_absent)

lemma rfind_dot_pptx: "rfind (stem @ ''.pptx'') CHR ''.'' = int (length stem)"
  using rfind_from_last [of "CHR ''.''" "''pptx''" stem 0 "-1"] by (simp add: rfind_def)

lemma rfind_absent: "c \<notin> set p \<Longrightarrow> rfind p c = -1"
  by (simp add: rfind_def rfind_from_absent)

lemma splitext_regular_name:
  assumes "CHR ''/'' \<notin> set stem" and "\<exists>c \<in> set stem. c \<noteq> CHR ''.''"
  shows "splitext (stem @ ''.pptx'') = (stem, ''.pptx'')"
proof -
  have sep: "rfind (stem @ ''.pptx'') CHR ''/'' = -1"
    using assms(1) by (intro rfind_absent) simp
  show ?thesis
    using assms(2) by (simp add: splitext_def sep rfind_dot_pptx)
qed

text \<open>
  For a file name whose stem has a character other than a dot, the path the code
  expects is the mirrored directory joined with the name, \<^verbatim>\<open>.pptx\<close> replaced by \<^verbatim>\<open>.pdf\<close>.
\<close>

lemma target_file_regular_name:
  assumes "CHR ''/'' \<notin> set stem" and "\<exists>c \<in> set stem. c \<noteq> CHR ''.''"
  shows "target_file (stem @ ''.pptx'') target_dir
           = join target_dir (replace_extension (stem @ ''.pptx''))"
  using splitext_regular_name [OF assms]
  by (simp add: target_file_def replace_extension_def)

section \<open>The configuration loader\<close>

text \<open>
  C8. A key that the loaded mapping does not have makes \<^verbatim>\<open>get\<close> return \<^verbatim>\<open>None\<close>, not raise.
  Nothing is validated at load time: \<^verbatim>\<open>Config.__init__\<close> keeps whatever document the
  parser gave, and \<^verbatim>\<open>App.__init__\<close> succeeds on every mapping, whichever keys it lacks.
  The failure comes where the absent value is first used: with no \<^verbatim>\<open>dist_dir\<close>, \<^verbatim>\<open>run\<close>
  raises \<^verbatim>\<open>TypeError\<close> on \<^verbatim>\<open>Path(None)\<close>, before any call to the outside.
\<close>

theorem get_absent_key:
  "(map_of items (PStr key) = None \<longrightarrow> Config_get \<lparr>config = PDict items\<rparr> key = Inr PNone)
   \<and> (file_open_r E h path = Inr f \<and> safe_load_r E (h @ [FileOpen path (Inr f)]) f = Inr doc
        \<longrightarrow> fst (Config_init E path h) = Inr \<lparr>config = doc\<rparr>)
   \<and> (fst (Config_init E path h) = Inr \<lparr>config = PDict items\<rparr>
        \<longrightarrow> (\<exists>app. fst (App_init E path h) = Inr app))
   \<and> (map_of items (PStr ''dist_dir'') = None
        \<longrightarrow> run E \<lparr>App_config = \<lparr>config = PDict items\<rparr>, converter = c, protector = p\<rparr> h
            = Some (Inl TypeError, h))"
proof (intro conjI impI)
  assume "map_of items (PStr key) = None"
  then show "Config_get \<lparr>config = PDict items\<rparr> key = Inr PNone" by simp
next
  assume "file_open_r E h path = Inr f \<and> safe_load_r E (h @ [FileOpen path (Inr f)]) f = Inr doc"
  then show "fst (Config_init E path h) = Inr \<lparr>config = doc\<rparr>"
    by (simp add: Config_init_def)
next
  assume "fst (Config_init E path h) = Inr \<lparr>config = PDict items\<rparr>"
  then show "\<exists>app. fst (App_init E path h) = Inr app"
    by (cases "Config_init E path h") (simp add: App_init_def split: option.splits)
next
  assume "map_of items (PStr ''dist_dir'') = None"
  then show "run E \<lparr>App_config = \<lparr>config = PDict items\<rparr>, converter = c, protector = p\<rparr> h
      = Some (Inl TypeError, h)"
    by (simp add: run_def)
qed

theorem get_absent_key_witness:
  "map_of [(PStr ''source_dir'', PStr ''src'')] (PStr ''dist_dir'') = None
   \<and> Config_get \<lparr>config = PDict [(PStr ''source_dir'', PStr ''src'')]\<rparr> ''dist_dir'' = Inr PNone
   \<and> file_open_r demo_env_partial [] ''config.yaml'' = Inr 3
   \<and> safe_load_r demo_env_partial ([] @ [FileOpen ''config.yaml'' (Inr 3)]) 3
       = Inr (PDict [(PStr ''source_dir'', PStr ''src'')])
   \<and> fst (Config_init demo_env_partial ''config.yaml'' [])
       = Inr \<lparr>config = PDict [(PStr ''source_dir'', PStr ''src'')]\<rparr>
   \<and> (\<exists>app. fst (App_init demo_env_partial ''config.yaml'' []) = Inr app)
   \<and> run demo_env_partial
        \<lparr>App_config = \<lparr>config = PDict [(PStr ''source_dir'', PStr ''src'')]\<rparr>,
         converter = demo_converter, protector = \<lparr>owner_password = PNone\<rparr>\<rparr> []
       = Some (Inl TypeError, [])"
proof -
  have m: "map_of [(PStr ''source_dir'', PStr ''src'')] (PStr ''dist_dir'') = None"
    by simp
  have o: "file_open_r demo_env_partial [] ''config.yaml'' = Inr 3"
    by (simp add: demo_env_partial_def demo_env_def)
  have l: "safe_load_r demo_env_partial ([] @ [FileOpen ''config.yaml'' (Inr 3)]) 3
       = Inr (PDict [(PStr ''source_dir'', PStr ''src'')])"
    by (simp add: demo_env_partial_def demo_env_def)
  note inst = get_absent_key [of "[(PStr ''source_dir'', PStr ''src'')]" "''dist_dir''"
      demo_env_partial "[]" "''config.yaml''" 3 "PDict [(PStr ''source_dir'', PStr ''src'')]"
      demo_converter "\<lparr>owner_password = PNone\<rparr>"]
  from inst m o l show ?thesis by blast
qed

text \<open>
  C10. When the parsed document is not a mapping (an empty file parses to \<^verbatim>\<open>None\<close>),
  every call of \<^verbatim>\<open>get\<close> raises \<^verbatim>\<open>AttributeError\<close>, whatever the key: the value has no
  \<^verbatim>\<open>get\<close> attribute.
\<close>

theorem get_on_non_mapping:
  "(\<forall>items. config self \<noteq> PDict items) \<Longrightarrow> Config_get self key = Inl AttributeError"
  by (cases "config self") auto

theorem get_on_non_mapping_witness:
  "(\<forall>items. config \<lparr>config = PNone\<rparr> \<noteq> PDict items)
   \<and> Config_get \<lparr>config = PNone\<rparr> ''source_dir'' = Inl AttributeError"
  using get_on_non_mapping [of "\<lparr>config = PNone\<rparr>" "''source_dir''"]
  by simp

section \<open>Converting the files of one directory\<close>

lemma convert_files_skip:
  "\<not> endswith file ''.pptx'' \<Longrightarrow>
   convert_files E self root (file # files) target_dir converted_files h =
   convert_files E self root files target_dir converted_files h"
  by simp

text \<open>
  C9. The test on the extension is case-sensitive. A file whose name ends in a case
  variant of \<^verbatim>\<open>.pptx\<close> other than \<^verbatim>\<open>.pptx\<close> itself is passed over: the loop goes on with
  the same list and no call has been made for it.
\<close>

theorem case_variant_not_converted:
  assumes "str_lower suf = ''.pptx''" and "suf \<noteq> ''.pptx''"
  shows "convert_files E self root ((stem @ suf) # files) target_dir converted_files h =
         convert_files E self root files target_dir converted_files h"
proof -
  have "length suf = length ''.pptx''"
    using assms(1) length_str_lower [of suf] by simp
  then have "\<not> endswith (stem @ suf) ''.pptx''"
    using assms(2) endswith_same_length by blast
  then show ?thesis by (rule convert_files_skip)
qed

theorem case_variant_not_converted_witness:
  "str_lower ''.PPTX'' = ''.pptx'' \<and> ''.PPTX'' \<noteq> ''.pptx''
   \<and> convert_files demo_env demo_converter ''src/a'' [''SHOUT.PPTX''] ''out/a'' [] []
       = (Inr [], [])"
  using case_variant_not_converted [of "''.PPTX''" demo_env demo_converter "''src/a''"
      "''SHOUT''" "[]" "''out/a''" "[]" "[]"]
  by (simp add: str_lower_def lower_char_def)

lemma convert_file_nonzero:
  assumes "shell_r E h (convert_command (convert_command_prefix self) target_dir
             (join root file)) = Inr rc"
    and "rc \<noteq> 0"
  shows "convert_file E self root file target_dir h =
         (case print_r E (h @ [Shell (convert_command (convert_command_prefix self) target_dir
                                       (join root file)) (Inr rc)])
                 (Msg_convert_error file) of
            None \<Rightarrow>
              (Inr None,
               h @ [Shell (convert_command (convert_command_prefix self) target_dir
                             (join root file)) (Inr rc),
                    Print (Msg_convert_error file)])
          | Some e \<Rightarrow>
              (Inl e,
               h @ [Shell (convert_command (convert_command_prefix self) target_dir
                             (join root file)) (Inr rc),
                    PrintRaised (Msg_convert_error file) e]))"
  using assms
  by (simp add: convert_file_def convert_file_try_def print_line_def split: option.splits)

text \<open>
  C2, as the code has it. When the converter process leaves with a non-zero status on
  a presentation file, the error line is printed. When that \<^verbatim>\<open>print\<close> returns, the list
  of converted files stays as it was and the loop goes on with the remaining files of
  the directory. When that \<^verbatim>\<open>print\<close> raises, the exception is not caught: it is the
  result of the loop, and the remaining files are not looked at.
\<close>

theorem conversion_failure_contained:
  assumes "endswith file ''.pptx''"
    and "shell_r E h (convert_command (convert_command_prefix self) target_dir
           (join root file)) = Inr rc"
    and "rc \<noteq> 0"
  shows "convert_files E self root (file # files) target_dir converted_files h =
         (case print_r E (h @ [Shell (convert_command (convert_command_prefix self) target_dir
                                       (join root file)) (Inr rc)])
                 (Msg_convert_error file) of
            None \<Rightarrow>
              convert_files E self root files target_dir converted_files
                (h @ [Shell (convert_command (convert_command_prefix self) target_dir
                               (join root file)) (Inr rc),
                      Print (Msg_convert_error file)])
          | Some e \<Rightarrow>
              (Inl e,
               h @ [Shell (convert_command (convert_command_prefix self) target_dir
                             (join root file)) (Inr rc),
                    PrintRaised (Msg_convert_error file) e]))"
  using assms by (simp add: convert_file_nonzero split: option.splits)

theorem conversion_failure_contained_witness:
  "endswith ''bad.pptx'' ''.pptx''
   \<and> shell_r demo_env []
        (convert_command ''/opt/homebrew/bin/soffice'' ''out/a'' ''src/a/bad.pptx'') = Inr 1
   \<and> print_r demo_env
        [Shell (convert_command ''/opt/homebrew/bin/soffice'' ''out/a'' ''src/a/bad.pptx'')
           (Inr 1)]
        (Msg_convert_error ''bad.pptx'') = None
   \<and> convert_files demo_env demo_converter ''src/a'' [''bad.pptx'', ''one.pptx''] ''out/a''
        [] [] =
       (Inr [''out/a/one.pdf''],
        [Shell (convert_command ''/opt/homebrew/bin/soffice'' ''out/a'' ''src/a/bad.pptx'')
           (Inr 1),
         Print (Msg_convert_error ''bad.pptx''),
         Shell (convert_command ''/opt/homebrew/bin/soffice'' ''out/a'' ''src/a/one.pptx'')
           (Inr 0),
         IsFile ''out/a/one.pdf'' (Inr True),
         Print (Msg_converted ''one.pptx'')])
   \<and> shell_r demo_env_mute []
        (convert_command ''/opt/homebrew/bin/soffice'' ''out/a'' ''src/a/bad.pptx'') = Inr 1
   \<and> print_r demo_env_mute
        [Shell (convert_command ''/opt/homebrew/bin/soffice'' ''out/a'' ''src/a/bad.pptx'')
           (Inr 1)]
        (Msg_convert_error ''bad.pptx'') = Some (OSError ''Broken pipe'')
   \<and> convert_files demo_env_mute demo_converter ''src/a'' [''bad.pptx'', ''one.pptx''] ''out/a''
        [] [] =
       (Inl (OSError ''Broken pipe''),
        [Shell (convert_command ''/opt/homebrew/bin/soffice'' ''out/a'' ''src/a/bad.pptx'')
           (Inr 1),
         PrintRaised (Msg_convert_error ''bad.pptx'') (OSError ''Broken pipe'')])"
  using conversion_failure_contained [of "''bad.pptx''" demo_env "[]" demo_converter
      "''out/a''" "''src/a''" 1 "[''one.pptx'']" "[]"]
    conversion_failure_contained [of "''bad.pptx''" demo_env_mute "[]" demo_converter
      "''out/a''" "''src/a''" 1 "[''one.pptx'']" "[]"]
  by (simp add: demo_env_mute_def demo_env_def demo_converter_def endswith_def join_def
      startswith_def convert_file_def convert_file_try_def target_file_def splitext_def
      rfind_def convert_command_def print_line_def Let_def)

text \<open>
  The claim C2 as it is written fails where the console is closed: the converter
  leaves with status 1 on \<^verbatim>\<open>bad.pptx\<close>, the \<^verbatim>\<open>print\<close> of the handler raises, and the loop
  ends with that exception instead of going on with \<^verbatim>\<open>one.pptx\<close>.
\<close>

theorem conversion_failure_report_raises:
  "endswith ''bad.pptx'' ''.pptx''
   \<and> shell_r demo_env_mute []
        (convert_command ''/opt/homebrew/bin/soffice'' ''out/a'' ''src/a/bad.pptx'') = Inr 1
   \<and> convert_files demo_env_mute demo_converter ''src/a'' [''bad.pptx'', ''one.pptx'']
        ''out/a'' [] [] =
       (Inl (OSError ''Broken pipe''),
        [Shell (convert_command ''/opt/homebrew/bin/soffice'' ''out/a'' ''src/a/bad.pptx'')
           (Inr 1),
         PrintRaised (Msg_convert_error ''bad.pptx'') (OSError ''Broken pipe'')])
   \<and> convert_files demo_env_mute demo_converter ''src/a'' [''bad.pptx'', ''one.pptx'']
        ''out/a'' [] [] \<noteq>
       convert_files demo_env_mute demo_converter ''src/a'' [''one.pptx''] ''out/a'' []
         [Shell (convert_command ''/opt/homebrew/bin/soffice'' ''out/a'' ''src/a/bad.pptx'')
            (Inr 1),
          Print (Msg_convert_error ''bad.pptx'')]"
  by (simp add: demo_env_mute_def demo_env_def demo_converter_def endswith_def join_def
      startswith_def convert_file_def convert_file_try_def target_file_def splitext_def
      rfind_def convert_command_def print_line_def Let_def)

text \<open>
  C3. The loop converts exactly the files whose name ends in \<^verbatim>\<open>.pptx\<close>, and the
  destination is to be the mirrored directory joined with the name, \<^verbatim>\<open>.pptx\<close> replaced
  by \<^verbatim>\<open>.pdf\<close>. The code takes the stem from \<^verbatim>\<open>os.path.splitext\<close>, which does not count
  the leading dots of a name as the start of an extension: the file named \<^verbatim>\<open>.pptx\<close>
  passes the test on the extension, and the output is then looked for at
  \<^verbatim>\<open>.pptx.pdf\<close>, not at \<^verbatim>\<open>.pdf\<close>.
\<close>

theorem dotfile_destination:
  "endswith ''.pptx'' ''.pptx''
   \<and> target_file ''.pptx'' ''out'' = ''out/.pptx.pdf''
   \<and> join ''out'' (replace_extension ''.pptx'') = ''out/.pdf''"
  by (simp add: endswith_def target_file_def splitext_def rfind_def join_def startswith_def
      replace_extension_def)

section \<open>The calls of a conversion run\<close>

lemma converted_in_append1: "converted_in self t p \<Longrightarrow> converted_in self (t @ u) p"
  unfolding converted_in_def by force

lemma converted_in_append2: "converted_in self u p \<Longrightarrow> converted_in self (t @ u) p"
proof -
  assume "converted_in self u p"
  then obtain pre root fl target_dir post where
    f: "endswith fl ''.pptx''" "p = target_file fl target_dir"
    and u: "u = pre @ Shell (convert_command (convert_command_prefix self) target_dir
                               (join root fl)) (Inr 0)
                # IsFile p (Inr True) # post"
    unfolding converted_in_def by blast
  from u have "t @ u = (t @ pre) @ Shell (convert_command (convert_command_prefix self)
                                            target_dir (join root fl)) (Inr 0)
                # IsFile p (Inr True) # post"
    by simp
  with f show ?thesis unfolding converted_in_def by blast
qed

lemma print_line_cases:
  "print_line E m h = (r, h') \<Longrightarrow>
     (r = Inr () \<and> print_r E h m = None \<and> h' = h @ [Print m])
   \<or> (\<exists>e. r = Inl e \<and> print_r E h m = Some e \<and> h' = h @ [PrintRaised m e])"
  by (auto simp: print_line_def split: option.splits)

lemma convert_file_try_cases:
  assumes "convert_file_try E cmd fl tfile h = (r, h')"
  shows "(\<exists>e. r = Inl e \<and> h' = h @ [Shell cmd (Inl e)])
   \<or> (\<exists>rc. rc \<noteq> 0 \<and> r = Inl (CalledProcessError rc) \<and> h' = h @ [Shell cmd (Inr rc)])
   \<or> (\<exists>e. r = Inl e \<and> h' = h @ [Shell cmd (Inr 0), IsFile tfile (Inl e)])
   \<or> (r = Inr (Some tfile)
        \<and> h' = h @ [Shell cmd (Inr 0), IsFile tfile (Inr True), Print (Msg_converted fl)])
   \<or> (\<exists>e. r = Inl e
        \<and> h' = h @ [Shell cmd (Inr 0), IsFile tfile (Inr True),
                    PrintRaised (Msg_converted fl) e])
   \<or> (r = Inr None
        \<and> h' = h @ [Shell cmd (Inr 0), IsFile tfile (Inr False), Print (Msg_not_found fl)])
   \<or> (\<exists>e. r = Inl e
        \<and> h' = h @ [Shell cmd (Inr 0), IsFile tfile (Inr False),
                    PrintRaised (Msg_not_found fl) e])"
proof (cases "shell_r E h cmd")
  case (Inl e)
  with assms show ?thesis by (auto simp: convert_file_try_def)
next
  case (Inr rc)
  show ?thesis
  proof (cases "rc = 0")
    case False
    with assms Inr show ?thesis by (auto simp: convert_file_try_def)
  next
    case True
    let ?h1 = "h @ [Shell cmd (Inr 0)]"
    show ?thesis
    proof (cases "is_file_r E ?h1 tfile")
      case (Inl e)
      with assms \<open>shell_r E h cmd = Inr rc\<close> True show ?thesis
        by (auto simp: convert_file_try_def)
    next
      case isf: (Inr found)
      show ?thesis
      proof (cases found)
        case True
        obtain r1 h2 where pl: "print_line E (Msg_converted fl) (?h1 @ [IsFile tfile (Inr True)]) = (r1, h2)"
          by (cases "print_line E (Msg_converted fl) (?h1 @ [IsFile tfile (Inr True)])") auto
        from assms \<open>shell_r E h cmd = Inr rc\<close> \<open>rc = 0\<close> isf True pl
        have res: "(r, h') = (case r1 of Inl e \<Rightarrow> (Inl e, h2) | Inr _ \<Rightarrow> (Inr (Some tfile), h2))"
          by (simp add: convert_file_try_def split: sum.splits)
        from print_line_cases [OF pl] res show ?thesis by auto
      next
        case False
        obtain r1 h2 where pl: "print_line E (Msg_not_found fl) (?h1 @ [IsFile tfile (Inr False)]) = (r1, h2)"
          by (cases "print_line E (Msg_not_found fl) (?h1 @ [IsFile tfile (Inr False)])") auto
        from assms \<open>shell_r E h cmd = Inr rc\<close> \<open>rc = 0\<close> isf False pl
        have res: "(r, h') = (case r1 of Inl e \<Rightarrow> (Inl e, h2) | Inr _ \<Rightarrow> (Inr None, h2))"
          by (simp add: convert_file_try_def split: sum.splits)
        from print_line_cases [OF pl] res show ?thesis by auto
      qed
    qed
  qed
qed

lemma convert_file_try_trace:
  assumes "convert_file_try E cmd fl tfile h = (r, h')"
  shows "\<exists>t. h' = h @ t \<and> list_all conversion_event t"
  using convert_file_try_cases [OF assms] by auto

lemma convert_file_try_Some:
  assumes "convert_file_try E cmd fl tfile h = (Inr (Some p), h')"
  shows "p = tfile \<and> h' = h @ [Shell cmd (Inr 0), IsFile p (Inr True), Print (Msg_converted fl)]"
  using convert_file_try_cases [OF assms] by auto

lemma convert_file_unfold:
  assumes "convert_file_try E (convert_command (convert_command_prefix self) target_dir (join root fl))
             fl (target_file fl target_dir) h = (r1, h1)"
  shows "convert_file E self root fl target_dir h =
     (case r1 of
        Inl e \<Rightarrow>
          (case e of
             CalledProcessError rc \<Rightarrow>
               (case print_line E (Msg_convert_error fl) h1 of
                  (Inl e', h2) \<Rightarrow> (Inl e', h2)
                | (Inr _, h2) \<Rightarrow> (Inr None, h2))
           | _ \<Rightarrow> (Inl e, h1))
      | Inr pdf_path \<Rightarrow> (Inr pdf_path, h1))"
  using assms by (simp add: convert_file_def Let_def split: sum.splits)

lemma convert_file_trace:
  assumes "convert_file E self root fl target_dir h = (r, h')"
  shows "\<exists>t. h' = h @ t \<and> list_all conversion_event t"
proof -
  let ?cmd = "convert_command (convert_command_prefix self) target_dir (join root fl)"
  obtain r1 h1 where t: "convert_file_try E ?cmd fl (target_file fl target_dir) h = (r1, h1)"
    by (cases "convert_file_try E ?cmd fl (target_file fl target_dir) h") auto
  from convert_file_try_trace [OF t] obtain t1 where t1: "h1 = h @ t1" "list_all conversion_event t1"
    by blast
  note u = convert_file_unfold [OF t]
  show ?thesis
  proof (cases r1)
    case (Inr pdf_path)
    with u assms t1 show ?thesis by auto
  next
    case (Inl e)
    show ?thesis
    proof (cases "\<exists>rc. e = CalledProcessError rc")
      case False
      with u assms Inl have "h' = h1" by (cases e) auto
      with t1 show ?thesis by auto
    next
      case True
      then obtain rc where e: "e = CalledProcessError rc" by blast
      obtain r2 h2 where pl: "print_line E (Msg_convert_error fl) h1 = (r2, h2)"
        by (cases "print_line E (Msg_convert_error fl) h1") auto
      with u assms Inl e have "h' = h2" by (auto split: sum.splits)
      with print_line_cases [OF pl] t1 show ?thesis by auto
    qed
  qed
qed

lemma convert_file_Some:
  assumes "convert_file E self root fl target_dir h = (Inr (Some p), h')"
  shows "p = target_file fl target_dir \<and>
         h' = h @ [Shell (convert_command (convert_command_prefix self) target_dir
                            (join root fl)) (Inr 0),
                   IsFile p (Inr True), Print (Msg_converted fl)]"
proof -
  let ?cmd = "convert_command (convert_command_prefix self) target_dir (join root fl)"
  obtain r1 h1 where t: "convert_file_try E ?cmd fl (target_file fl target_dir) h = (r1, h1)"
    by (cases "convert_file_try E ?cmd fl (target_file fl target_dir) h") auto
  note u = convert_file_unfold [OF t]
  show ?thesis
  proof (cases r1)
    case (Inr pdf_path)
    with u assms have "pdf_path = Some p" "h' = h1" by auto
    with t Inr convert_file_try_Some [of E ?cmd fl "target_file fl target_dir" h p h1]
    show ?thesis by simp
  next
    case (Inl e)
    with u assms show ?thesis
      by (cases e) (auto split: prod.splits sum.splits)
  qed
qed

lemma convert_file_converted_in:
  assumes "convert_file E self root fl target_dir h = (Inr (Some p), h @ t)"
    and "endswith fl ''.pptx''"
  shows "converted_in self t p"
proof -
  from convert_file_Some [OF assms(1)]
  have p: "p = target_file fl target_dir"
    and t: "t = Shell (convert_command (convert_command_prefix self) target_dir
                         (join root fl)) (Inr 0)
               # IsFile p (Inr True) # [Print (Msg_converted fl)]"
    by simp_all
  have "t = [] @ Shell (convert_command (convert_command_prefix self) target_dir
                          (join root fl)) (Inr 0)
               # IsFile p (Inr True) # [Print (Msg_converted fl)]"
    using t by simp
  with p assms(2) show ?thesis unfolding converted_in_def by blast
qed

lemma convert_files_trace:
  "convert_files E self root fls target_dir acc h = (r, h') \<Longrightarrow>
   \<exists>t. h' = h @ t \<and> list_all conversion_event t
     \<and> (\<forall>acc'. r = Inr acc' \<longrightarrow> (\<forall>p \<in> set acc'. p \<in> set acc \<or> converted_in self t p))"
proof (induction fls arbitrary: acc h)
  case Nil
  then show ?case by auto
next
  case (Cons fl fls)
  show ?case
  proof (cases "endswith fl ''.pptx''")
    case False
    with Cons.prems have "convert_files E self root fls target_dir acc h = (r, h')" by simp
    from Cons.IH [OF this] show ?thesis .
  next
    case True
    obtain r1 h1 where cf: "convert_file E self root fl target_dir h = (r1, h1)"
      by (cases "convert_file E self root fl target_dir h") auto
    from convert_file_trace [OF cf] obtain t1 where
      t1: "h1 = h @ t1" "list_all conversion_event t1"
      by blast
    show ?thesis
    proof (cases r1)
      case (Inl e)
      with Cons.prems True cf have "r = Inl e" "h' = h1" by auto
      with t1 show ?thesis by auto
    next
      case (Inr pdf_path)
      define acc1 where "acc1 = (case pdf_path of None \<Rightarrow> acc
                                 | Some p \<Rightarrow> if p \<noteq> [] then acc @ [p] else acc)"
      from Cons.prems True cf Inr
      have rest: "convert_files E self root fls target_dir acc1 h1 = (r, h')"
        by (simp add: acc1_def)
      from Cons.IH [OF rest] obtain t2 where
        t2: "h' = h1 @ t2" "list_all conversion_event t2"
        and mem: "\<forall>acc'. r = Inr acc' \<longrightarrow>
                    (\<forall>p \<in> set acc'. p \<in> set acc1 \<or> converted_in self t2 p)"
        by blast
      have acc1: "\<forall>p \<in> set acc1. p \<in> set acc \<or> converted_in self t1 p"
      proof (cases pdf_path)
        case None
        then show ?thesis by (simp add: acc1_def)
      next
        case (Some q)
        with cf Inr t1 have "convert_file E self root fl target_dir h = (Inr (Some q), h @ t1)"
          by simp
        from convert_file_converted_in [OF this True] Some show ?thesis
          by (auto simp: acc1_def)
      qed
      have "h' = h @ (t1 @ t2)" using t1 t2 by simp
      moreover have "list_all conversion_event (t1 @ t2)" using t1 t2 by simp
      moreover have "\<forall>acc'. r = Inr acc' \<longrightarrow>
          (\<forall>p \<in> set acc'. p \<in> set acc \<or> converted_in self (t1 @ t2) p)"
      proof (intro allI impI ballI)
        fix acc' p assume r: "r = Inr acc'" and p: "p \<in> set acc'"
        from mem r p have "p \<in> set acc1 \<or> converted_in self t2 p" by blast
        then show "p \<in> set acc \<or> converted_in self (t1 @ t2) p"
        proof
          assume "p \<in> set acc1"
          with acc1 have "p \<in> set acc \<or> converted_in self t1 p" by blast
          then show ?thesis using converted_in_append1 [of self t1 p t2] by blast
        next
          assume "converted_in self t2 p"
          then show ?thesis using converted_in_append2 [of self t2 p t1] by blast
        qed
      qed
      ultimately show ?thesis by (intro exI [of _ "t1 @ t2"] conjI)
    qed
  qed
qed

lemma abspath_trace:
  "abspath E path h = (r, h') \<Longrightarrow> \<exists>cw. h' = h @ cw \<and> set cw \<subseteq> range Getcwd"
  by (auto simp: abspath_def split: if_splits option.splits)

lemma relpath_trace:
  assumes "relpath E path start h = (r, h')"
  shows "\<exists>cw. h' = h @ cw \<and> set cw \<subseteq> range Getcwd"
proof (cases "path = []")
  case True
  with assms show ?thesis by (simp add: relpath_def)
next
  case False
  obtain r1 h1 where a1: "abspath E start h = (r1, h1)" by (cases "abspath E start h") auto
  from abspath_trace [OF a1] obtain c1 where c1: "h1 = h @ c1" "set c1 \<subseteq> range Getcwd"
    by blast
  show ?thesis
  proof (cases r1)
    case (Inl e)
    with assms False a1 have "h' = h1" by (simp add: relpath_def)
    with c1 show ?thesis by blast
  next
    case (Inr abs_start)
    obtain r2 h2 where a2: "abspath E path h1 = (r2, h2)" by (cases "abspath E path h1") auto
    from abspath_trace [OF a2] obtain c2 where c2: "h2 = h1 @ c2" "set c2 \<subseteq> range Getcwd"
      by blast
    from assms False a1 Inr a2 have "h' = h2"
      by (auto simp: relpath_def split: sum.splits)
    with c1 c2 have "h' = h @ (c1 @ c2)" "set (c1 @ c2) \<subseteq> range Getcwd" by auto
    then show ?thesis by blast
  qed
qed

lemma makedirs_eq:
  "makedirs E path exist_ok h =
     (case makedirs_answer E path exist_ok h of None \<Rightarrow> Inr () | Some e \<Rightarrow> Inl e,
      h @ [Makedirs path exist_ok (makedirs_answer E path exist_ok h)])"
  by (simp add: makedirs_def split: option.splits)

text \<open>
  What the body of the loop does for one entry, once the relative path is there and
  the destination root is of the kind of the names.
\<close>

lemma convert_dir_unfold:
  assumes "relpath E root src h = (Inr rel, h1)"
    and "path_text b (dist_dir self) = Some dist"
  shows "convert_dir E self b src root fls acc h =
     (case makedirs_answer E (join dist rel) True h1 of
        Some e \<Rightarrow> (Inl e, h1 @ [Makedirs (join dist rel) True (Some e)])
      | None \<Rightarrow>
          if b then (case fls of
                       [] \<Rightarrow> (Inr acc, h1 @ [Makedirs (join dist rel) True None])
                     | fl # _ \<Rightarrow> (Inl TypeError, h1 @ [Makedirs (join dist rel) True None]))
          else convert_files E self root fls (join dist rel) acc
                 (h1 @ [Makedirs (join dist rel) True None]))"
  using assms by (simp add: convert_dir_def makedirs_def Let_def split: option.splits)

lemma convert_dir_trace:
  assumes "convert_dir E self b src root fls acc h = (r, h')"
  shows "\<exists>t. h' = h @ t \<and> (\<forall>e \<in> set t. \<not> is_Walk e)
           \<and> (\<forall>acc'. r = Inr acc' \<longrightarrow> (\<forall>p \<in> set acc'. p \<in> set acc \<or> converted_in self t p))"
proof -
  obtain r1 h1 where rp: "relpath E root src h = (r1, h1)" by (cases "relpath E root src h") auto
  from relpath_trace [OF rp] obtain cw where cw: "h1 = h @ cw" "set cw \<subseteq> range Getcwd"
    by blast
  then have cwW: "\<forall>e \<in> set cw. \<not> is_Walk e" by auto
  show ?thesis
  proof (cases r1)
    case (Inl e)
    with assms rp have "r = Inl e" "h' = h1" by (auto simp: convert_dir_def)
    with cw cwW show ?thesis by auto
  next
    case (Inr rel)
    show ?thesis
    proof (cases "path_text b (dist_dir self)")
      case None
      with assms rp Inr have "r = Inl TypeError" "h' = h1" by (auto simp: convert_dir_def)
      with cw cwW show ?thesis by auto
    next
      case (Some dist)
      let ?d = "join dist rel"
      note u = convert_dir_unfold [OF rp [unfolded Inr] Some, of fls acc]
      show ?thesis
      proof (cases "makedirs_answer E ?d True h1")
        case (Some e)
        with u assms have "r = Inl e" "h' = h @ (cw @ [Makedirs ?d True (Some e)])"
          using cw by auto
        moreover have "\<forall>x \<in> set (cw @ [Makedirs ?d True (Some e)]). \<not> is_Walk x"
          using cwW by auto
        ultimately show ?thesis by blast
      next
        case None
        let ?h2 = "h1 @ [Makedirs ?d True None]"
        show ?thesis
        proof (cases b)
          case True
          with u None assms have "h' = h @ (cw @ [Makedirs ?d True None])"
            and "\<forall>acc'. r = Inr acc' \<longrightarrow> acc' = acc"
            using cw by (auto split: list.splits)
          moreover have "\<forall>x \<in> set (cw @ [Makedirs ?d True None]). \<not> is_Walk x"
            using cwW by auto
          ultimately show ?thesis by blast
        next
          case False
          with u None assms have cfs: "convert_files E self root fls ?d acc ?h2 = (r, h')"
            by simp
          from convert_files_trace [OF cfs] obtain rest where
            rest: "h' = ?h2 @ rest" "list_all conversion_event rest"
            and mem: "\<forall>acc'. r = Inr acc' \<longrightarrow>
                        (\<forall>p \<in> set acc'. p \<in> set acc \<or> converted_in self rest p)"
            by blast
          let ?t = "(cw @ [Makedirs ?d True None]) @ rest"
          have nw: "\<forall>x \<in> set rest. \<not> is_Walk x"
          proof
            fix x assume "x \<in> set rest"
            with rest(2) have "conversion_event x" by (simp add: list_all_iff)
            then show "\<not> is_Walk x" by (cases x) auto
          qed
          have "h' = h @ ?t" using rest cw by simp
          moreover have "\<forall>x \<in> set ?t. \<not> is_Walk x" using cwW nw by auto
          moreover have "\<forall>acc'. r = Inr acc' \<longrightarrow>
              (\<forall>p \<in> set acc'. p \<in> set acc \<or> converted_in self ?t p)"
          proof (intro allI impI ballI)
            fix acc' p assume "r = Inr acc'" "p \<in> set acc'"
            with mem have "p \<in> set acc \<or> converted_in self rest p" by blast
            then show "p \<in> set acc \<or> converted_in self ?t p"
              using converted_in_append2 [of self rest p "cw @ [Makedirs ?d True None]"]
              by blast
          qed
          ultimately show ?thesis by blast
        qed
      qed
    qed
  qed
qed

lemma convert_walk_converted:
  assumes "convert_walk E self b src acc h = Some y"
  shows "\<exists>t. snd y = h @ t
           \<and> (\<forall>converted_files. fst y = Inr converted_files \<longrightarrow>
                (\<forall>p \<in> set converted_files. p \<in> set acc \<or> converted_in self t p))"
  using assms
proof (induction rule: convert_walk.raw_induct [rotated 1, consumes 1])
  case (1 convert_walk' E self b src acc h y)
  show ?case
  proof (cases "walk_r E h src")
    case (Inl e)
    with 1(2) show ?thesis by auto
  next
    case (Inr item)
    show ?thesis
    proof (cases item)
      case None
      with Inr 1(2) show ?thesis by auto
    next
      case (Some triple)
      obtain root dirs fls where triple: "triple = (root, dirs, fls)" by (cases triple) auto
      let ?w = "Walk src (Inr (Some (root, dirs, fls)))"
      obtain r1 h1 where cd: "convert_dir E self b src root fls acc (h @ [?w]) = (r1, h1)"
        by (cases "convert_dir E self b src root fls acc (h @ [?w])") auto
      from convert_dir_trace [OF cd] obtain t where
        t: "h1 = (h @ [?w]) @ t"
        and mem1: "\<forall>acc'. r1 = Inr acc' \<longrightarrow>
                     (\<forall>p \<in> set acc'. p \<in> set acc \<or> converted_in self t p)"
        by blast
      show ?thesis
      proof (cases r1)
        case (Inl e)
        with 1(2) Inr Some triple cd have "y = (Inl e, h1)" by simp
        with t show ?thesis by auto
      next
        case r1: (Inr acc1)
        with 1(2) Inr Some triple cd
        have rec: "convert_walk' E self b src acc1 h1 = Some y" by simp
        from 1(1) [OF rec] obtain t2 where
          t2: "snd y = h1 @ t2"
          and mem2: "\<forall>converted_files. fst y = Inr converted_files \<longrightarrow>
                (\<forall>p \<in> set converted_files. p \<in> set acc1 \<or> converted_in self t2 p)"
          by blast
        let ?t = "([?w] @ t) @ t2"
        have "snd y = h @ ?t" using t t2 by simp
        moreover have "\<forall>converted_files. fst y = Inr converted_files \<longrightarrow>
                (\<forall>p \<in> set converted_files. p \<in> set acc \<or> converted_in self ?t p)"
        proof (intro allI impI ballI)
          fix converted_files p
          assume "fst y = Inr converted_files" "p \<in> set converted_files"
          with mem2 have "p \<in> set acc1 \<or> converted_in self t2 p" by blast
          then show "p \<in> set acc \<or> converted_in self ?t p"
          proof
            assume "p \<in> set acc1"
            with mem1 r1 have "p \<in> set acc \<or> converted_in self t p" by blast
            then show ?thesis
            proof
              assume "p \<in> set acc" then show ?thesis by simp
            next
              assume "converted_in self t p"
              then have "converted_in self ([?w] @ t) p" by (rule converted_in_append2)
              then show ?thesis using converted_in_append1 by blast
            qed
          next
            assume "converted_in self t2 p"
            then show ?thesis using converted_in_append2 by blast
          qed
        qed
        ultimately show ?thesis by blast
      qed
    qed
  qed
qed

lemma convert_converted:
  assumes "convert E self h0 = Some (Inr converted_files, h)" and "p \<in> set converted_files"
  shows "\<exists>t. h = h0 @ t \<and> converted_in self t p"
proof -
  from assms(1) obtain b src where "convert_walk E self b src [] h0 = Some (Inr converted_files, h)"
    by (cases "source_dir self") (auto simp: convert_def)
  from convert_walk_converted [OF this] assms(2) show ?thesis by auto
qed

lemma convert_file_absent:
  assumes "shell_r E h (convert_command (convert_command_prefix self) target_dir (join root f))
             = Inr 0"
    and "is_file_r E (h @ [Shell (convert_command (convert_command_prefix self) target_dir
                                    (join root f)) (Inr 0)])
           (target_file f target_dir) = Inr False"
  shows "convert_file E self root f target_dir h =
     (case print_line E (Msg_not_found f)
             (h @ [Shell (convert_command (convert_command_prefix self) target_dir
                            (join root f)) (Inr 0),
                   IsFile (target_file f target_dir) (Inr False)]) of
        (Inl e, h2) \<Rightarrow>
          (case e of
             CalledProcessError rc \<Rightarrow>
               (case print_line E (Msg_convert_error f) h2 of
                  (Inl e', h3) \<Rightarrow> (Inl e', h3)
                | (Inr _, h3) \<Rightarrow> (Inr None, h3))
           | _ \<Rightarrow> (Inl e, h2))
      | (Inr _, h2) \<Rightarrow> (Inr None, h2))"
  using assms
  by (simp add: convert_file_def convert_file_try_def Let_def split: prod.splits sum.splits)

lemma convert_file_absent_no_path:
  assumes "shell_r E h (convert_command (convert_command_prefix self) target_dir (join root f))
             = Inr 0"
    and "is_file_r E (h @ [Shell (convert_command (convert_command_prefix self) target_dir
                                    (join root f)) (Inr 0)])
           (target_file f target_dir) = Inr False"
  shows "fst (convert_file E self root f target_dir h) \<noteq> Inr (Some p)"
  unfolding convert_file_absent [OF assms]
  by (auto split: prod.splits sum.splits exn.splits)

lemma convert_file_absent_printed:
  assumes "shell_r E h (convert_command (convert_command_prefix self) target_dir (join root f))
             = Inr 0"
    and "is_file_r E (h @ [Shell (convert_command (convert_command_prefix self) target_dir
                                    (join root f)) (Inr 0)])
           (target_file f target_dir) = Inr False"
    and "print_r E (h @ [Shell (convert_command (convert_command_prefix self) target_dir
                                  (join root f)) (Inr 0),
                         IsFile (target_file f target_dir) (Inr False)])
           (Msg_not_found f) = None"
  shows "convert_file E self root f target_dir h =
         (Inr None,
          h @ [Shell (convert_command (convert_command_prefix self) target_dir (join root f))
                 (Inr 0),
               IsFile (target_file f target_dir) (Inr False),
               Print (Msg_not_found f)])"
  unfolding convert_file_absent [OF assms(1,2)]
  using assms(3) by (simp add: print_line_def)

lemmas demo_eval =
  convert_def convert_walk.simps convert_dir_def convert_file_def convert_file_try_def
  relpath_def abspath_def demo_env_def demo_walk_def demo_converter_def
  startswith_def endswith_def join_def normpath_def relpath_abs_def Let_def
  target_file_def splitext_def rfind_def convert_command_def
  path_text_def makedirs_def makedirs_answer_def print_line_def dirs_of_def path_key_def

lemma demo_convert:
  "\<exists>h. convert demo_env demo_converter [] =
          Some (Inr [''out/a/one.pdf'', ''out/a/b/two.pdf''], h)"
proof -
  have "map_option fst (convert demo_env demo_converter [])
          = Some (Inr [''out/a/one.pdf'', ''out/a/b/two.pdf''])"
    by (simp add: demo_eval)
  then show ?thesis by (cases "convert demo_env demo_converter []") auto
qed

text \<open>
  C1. In every run of \<^verbatim>\<open>convert\<close> that returns a list, each path of the list is the
  expected output of a file named \<^verbatim>\<open>*.pptx\<close> for which, in this run, the converter
  process left with status zero and the check made right after it found the file on
  disk. And the check decides: when the process leaves with status zero and the check
  does not find the file, the line "not found" is printed, the list stays as it was
  and the loop goes on; whatever that \<^verbatim>\<open>print\<close> does, no path is returned for the
  file.
\<close>

theorem converted_only_if_verified:
  "(convert E self h0 = Some (Inr converted_files, h) \<and> p \<in> set converted_files \<longrightarrow>
      (\<exists>pre root file target_dir post.
         endswith file ''.pptx'' \<and> p = target_file file target_dir \<and>
         h = h0 @ pre @ Shell (convert_command (convert_command_prefix self) target_dir
                                 (join root file)) (Inr 0)
                  # IsFile p (Inr True) # post))
   \<and> (endswith f ''.pptx''
      \<and> shell_r E h1 (convert_command (convert_command_prefix self) d (join r f)) = Inr 0
      \<and> is_file_r E (h1 @ [Shell (convert_command (convert_command_prefix self) d (join r f))
                              (Inr 0)])
          (target_file f d) = Inr False
      \<and> print_r E (h1 @ [Shell (convert_command (convert_command_prefix self) d (join r f))
                            (Inr 0),
                          IsFile (target_file f d) (Inr False)])
          (Msg_not_found f) = None \<longrightarrow>
      convert_files E self r (f # fs) d acc h1 =
      convert_files E self r fs d acc
        (h1 @ [Shell (convert_command (convert_command_prefix self) d (join r f)) (Inr 0),
               IsFile (target_file f d) (Inr False),
               Print (Msg_not_found f)]))
   \<and> (endswith f ''.pptx''
      \<and> shell_r E h1 (convert_command (convert_command_prefix self) d (join r f)) = Inr 0
      \<and> is_file_r E (h1 @ [Shell (convert_command (convert_command_prefix self) d (join r f))
                              (Inr 0)])
          (target_file f d) = Inr False \<longrightarrow>
      (\<exists>res h'. convert_file E self r f d h1 = (res, h')
         \<and> (\<forall>q. res \<noteq> Inr (Some q))
         \<and> convert_files E self r (f # fs) d acc h1 =
             (case res of
                Inl e \<Rightarrow> (Inl e, h')
              | Inr _ \<Rightarrow> convert_files E self r fs d acc h')))"
proof (intro conjI impI)
  assume a: "convert E self h0 = Some (Inr converted_files, h) \<and> p \<in> set converted_files"
  then obtain t where h: "h = h0 @ t" and "converted_in self t p"
    using convert_converted [of E self h0 converted_files h p] by blast
  then obtain pre root fl target_dir post where
    f: "endswith fl ''.pptx''" "p = target_file fl target_dir"
    and c: "t = pre @ Shell (convert_command (convert_command_prefix self) target_dir
                                 (join root fl)) (Inr 0) # IsFile p (Inr True) # post"
    unfolding converted_in_def by blast
  have "h = h0 @ pre @ Shell (convert_command (convert_command_prefix self) target_dir
                                 (join root fl)) (Inr 0)
                  # IsFile p (Inr True) # post"
    using h c by simp
  with f show "\<exists>pre root file target_dir post.
         endswith file ''.pptx'' \<and> p = target_file file target_dir \<and>
         h = h0 @ pre @ Shell (convert_command (convert_command_prefix self) target_dir
                                 (join root file)) (Inr 0)
                  # IsFile p (Inr True) # post"
    by blast
next
  assume "endswith f ''.pptx''
      \<and> shell_r E h1 (convert_command (convert_command_prefix self) d (join r f)) = Inr 0
      \<and> is_file_r E (h1 @ [Shell (convert_command (convert_command_prefix self) d (join r f))
                              (Inr 0)])
          (target_file f d) = Inr False
      \<and> print_r E (h1 @ [Shell (convert_command (convert_command_prefix self) d (join r f))
                            (Inr 0),
                          IsFile (target_file f d) (Inr False)])
          (Msg_not_found f) = None"
  then show "convert_files E self r (f # fs) d acc h1 =
      convert_files E self r fs d acc
        (h1 @ [Shell (convert_command (convert_command_prefix self) d (join r f)) (Inr 0),
               IsFile (target_file f d) (Inr False),
               Print (Msg_not_found f)])"
    by (simp add: convert_file_absent_printed)
next
  assume a: "endswith f ''.pptx''
      \<and> shell_r E h1 (convert_command (convert_command_prefix self) d (join r f)) = Inr 0
      \<and> is_file_r E (h1 @ [Shell (convert_command (convert_command_prefix self) d (join r f))
                              (Inr 0)])
          (target_file f d) = Inr False"
  obtain res h' where cf: "convert_file E self r f d h1 = (res, h')"
    by (cases "convert_file E self r f d h1") auto
  have np: "\<forall>q. res \<noteq> Inr (Some q)"
    using convert_file_absent_no_path [of E h1 self d r f] a cf by auto
  have "convert_files E self r (f # fs) d acc h1 =
             (case res of
                Inl e \<Rightarrow> (Inl e, h')
              | Inr _ \<Rightarrow> convert_files E self r fs d acc h')"
  proof (cases res)
    case (Inl e)
    with a cf show ?thesis by simp
  next
    case (Inr x)
    with np have "x = None" by (cases x) auto
    with a cf Inr show ?thesis by simp
  qed
  with cf np show "\<exists>res h'. convert_file E self r f d h1 = (res, h')
         \<and> (\<forall>q. res \<noteq> Inr (Some q))
         \<and> convert_files E self r (f # fs) d acc h1 =
             (case res of
                Inl e \<Rightarrow> (Inl e, h')
              | Inr _ \<Rightarrow> convert_files E self r fs d acc h')"
    by blast
qed

theorem converted_only_if_verified_witness:
  "(\<exists>converted_files h.
      convert demo_env demo_converter [] = Some (Inr converted_files, h)
      \<and> ''out/a/one.pdf'' \<in> set converted_files
      \<and> (\<exists>pre root file target_dir post.
           endswith file ''.pptx'' \<and> ''out/a/one.pdf'' = target_file file target_dir \<and>
           h = [] @ pre @ Shell (convert_command (convert_command_prefix demo_converter) target_dir
                                 (join root file)) (Inr 0)
                  # IsFile ''out/a/one.pdf'' (Inr True) # post))
   \<and> endswith ''ghost.pptx'' ''.pptx''
   \<and> shell_r demo_env [] (convert_command (convert_command_prefix demo_converter) ''out/a''
         (join ''src/a'' ''ghost.pptx'')) = Inr 0
   \<and> is_file_r demo_env
        [Shell (convert_command (convert_command_prefix demo_converter) ''out/a''
                  (join ''src/a'' ''ghost.pptx'')) (Inr 0)]
        (target_file ''ghost.pptx'' ''out/a'') = Inr False
   \<and> print_r demo_env
        [Shell (convert_command (convert_command_prefix demo_converter) ''out/a''
                  (join ''src/a'' ''ghost.pptx'')) (Inr 0),
         IsFile (target_file ''ghost.pptx'' ''out/a'') (Inr False)]
        (Msg_not_found ''ghost.pptx'') = None
   \<and> convert_files demo_env demo_converter ''src/a'' [''ghost.pptx''] ''out/a'' [] [] =
       (Inr [],
        [Shell (convert_command (convert_command_prefix demo_converter) ''out/a''
                  (join ''src/a'' ''ghost.pptx'')) (Inr 0),
         IsFile (target_file ''ghost.pptx'' ''out/a'') (Inr False),
         Print (Msg_not_found ''ghost.pptx'')])
   \<and> (\<exists>res h'. convert_file demo_env demo_converter ''src/a'' ''ghost.pptx'' ''out/a'' []
                  = (res, h')
         \<and> (\<forall>q. res \<noteq> Inr (Some q))
         \<and> convert_files demo_env demo_converter ''src/a'' [''ghost.pptx''] ''out/a'' [] [] =
             (case res of
                Inl e \<Rightarrow> (Inl e, h')
              | Inr _ \<Rightarrow> convert_files demo_env demo_converter ''src/a'' [] ''out/a'' [] h'))"
proof -
  from demo_convert obtain h where
    c: "convert demo_env demo_converter [] =
          Some (Inr [''out/a/one.pdf'', ''out/a/b/two.pdf''], h)"
    by blast
  have m: "''out/a/one.pdf'' \<in> set [''out/a/one.pdf'', ''out/a/b/two.pdf'']" by simp
  have e: "endswith ''ghost.pptx'' ''.pptx''" by (simp add: endswith_def)
  have s: "shell_r demo_env [] (convert_command (convert_command_prefix demo_converter) ''out/a''
         (join ''src/a'' ''ghost.pptx'')) = Inr 0"
    by (simp add: demo_env_def demo_converter_def convert_command_def join_def startswith_def
        endswith_def)
  have i: "is_file_r demo_env
        [Shell (convert_command (convert_command_prefix demo_converter) ''out/a''
                  (join ''src/a'' ''ghost.pptx'')) (Inr 0)]
        (target_file ''ghost.pptx'' ''out/a'') = Inr False"
    by (simp add: demo_env_def target_file_def splitext_def rfind_def join_def startswith_def
        endswith_def)
  have pr: "print_r demo_env
        [Shell (convert_command (convert_command_prefix demo_converter) ''out/a''
                  (join ''src/a'' ''ghost.pptx'')) (Inr 0),
         IsFile (target_file ''ghost.pptx'' ''out/a'') (Inr False)]
        (Msg_not_found ''ghost.pptx'') = None"
    by (simp add: demo_env_def)
  note inst = converted_only_if_verified [of demo_env demo_converter "[]"
      "[''out/a/one.pdf'', ''out/a/b/two.pdf'']" h "''out/a/one.pdf''" "''ghost.pptx''" "[]"
      "''out/a''" "''src/a''" "[]" "[]"]
  from inst c m have A: "\<exists>pre root file target_dir post.
           endswith file ''.pptx'' \<and> ''out/a/one.pdf'' = target_file file target_dir \<and>
           h = [] @ pre @ Shell (convert_command (convert_command_prefix demo_converter) target_dir
                                 (join root file)) (Inr 0)
                  # IsFile ''out/a/one.pdf'' (Inr True) # post"
    by blast
  from inst e s i pr
  have B: "convert_files demo_env demo_converter ''src/a'' [''ghost.pptx''] ''out/a'' [] [] =
       (Inr [],
        [Shell (convert_command (convert_command_prefix demo_converter) ''out/a''
                  (join ''src/a'' ''ghost.pptx'')) (Inr 0),
         IsFile (target_file ''ghost.pptx'' ''out/a'') (Inr False),
         Print (Msg_not_found ''ghost.pptx'')])"
    by simp
  from inst e s i
  have C: "\<exists>res h'. convert_file demo_env demo_converter ''src/a'' ''ghost.pptx'' ''out/a'' []
                  = (res, h')
         \<and> (\<forall>q. res \<noteq> Inr (Some q))
         \<and> convert_files demo_env demo_converter ''src/a'' [''ghost.pptx''] ''out/a'' [] [] =
             (case res of
                Inl e \<Rightarrow> (Inl e, h')
              | Inr _ \<Rightarrow> convert_files demo_env demo_converter ''src/a'' [] ''out/a'' [] h')"
    by (simp only: append_Nil)
  from c m A e s i pr B C show ?thesis by blast
qed

section \<open>The directories that are there\<close>

lemma dirs_of_snoc: "dirs_of E (h @ [e]) = fs_step E h (dirs_of E h) e"
  by (simp add: dirs_of_def)

lemma path_prefixes_iff: "a \<in> set (path_prefixes k) \<longleftrightarrow> (\<exists>s. k = a @ s)"
proof (induction k arbitrary: a)
  case Nil
  then show ?case by auto
next
  case (Cons c cs)
  show ?case
  proof (cases a)
    case Nil
    then show ?thesis by simp
  next
    case (Cons x xs)
    with Cons.IH [of xs] show ?thesis by auto
  qed
qed


lemma path_prefixes_trans:
  "a \<in> set (path_prefixes k) \<Longrightarrow> set (path_prefixes a) \<subseteq> set (path_prefixes k)"
  by (auto simp: path_prefixes_iff)

lemma closed_dirs_union:
  "closed_dirs d \<Longrightarrow> closed_dirs (d \<union> set (path_prefixes k))"
  unfolding closed_dirs_def using path_prefixes_trans by blast

lemma closed_dirs_keep:
  assumes "closed_dirs d"
  shows "closed_dirs {k \<in> d. list_all P (path_prefixes k)}"
  unfolding closed_dirs_def
proof (intro ballI subsetI)
  fix k a
  assume k: "k \<in> {k \<in> d. list_all P (path_prefixes k)}" and a: "a \<in> set (path_prefixes k)"
  from k assms a have "a \<in> d" unfolding closed_dirs_def by blast
  moreover from path_prefixes_trans [OF a] k have "list_all P (path_prefixes a)"
    by (auto simp: list_all_iff)
  ultimately show "a \<in> {k \<in> d. list_all P (path_prefixes k)}" by simp
qed

lemma closed_fs_step: "closed_dirs d \<Longrightarrow> closed_dirs (fs_step E h d e)"
  by (cases e) (auto simp: closed_dirs_union closed_dirs_keep)

lemma closed_dirs_rev: "closed_dirs (dirs_rev E es)"
proof (induction es)
  case Nil
  show ?case unfolding closed_dirs_def using path_prefixes_trans by fastforce
next
  case (Cons e es)
  then show ?case by (simp add: closed_fs_step)
qed

lemma dirs_of_closed: "k \<in> dirs_of E h \<Longrightarrow> set (path_prefixes k) \<subseteq> dirs_of E h"
  using closed_dirs_rev [of E "rev h"] unfolding closed_dirs_def dirs_of_def by blast



lemma mkdir_creates:
  "set (path_prefixes (path_key (cwd E) path))
     \<subseteq> dirs_of E (h @ [Mkdir path parents exist_ok None])"
  by (simp add: dirs_of_snoc)

lemma mkdir_present:
  assumes "path_key (cwd E) path \<in> dirs_of E h"
  shows "mkdir_answer E path parents True h = None"
    and "dirs_of E (h @ [Mkdir path parents True None]) = dirs_of E h"
  using assms dirs_of_closed [OF assms] by (auto simp: mkdir_answer_def dirs_of_snoc)

section \<open>The relative path\<close>







section \<open>The mirrored directory\<close>











section \<open>Every entry of the traversal\<close>

lemma append_eq_split:
  "xs @ ys = pre @ e # post \<Longrightarrow> e \<notin> set xs \<Longrightarrow> \<exists>pre'. pre = xs @ pre' \<and> ys = pre' @ e # post"
proof (induction xs arbitrary: pre)
  case Nil
  then show ?case by simp
next
  case (Cons x xs)
  from Cons.prems obtain pre0 where pre: "pre = x # pre0"
    by (cases pre) auto
  with Cons.prems have "xs @ ys = pre0 @ e # post" "e \<notin> set xs" by auto
  from Cons.IH [OF this] pre show ?case by auto
qed

lemma convert_dir_extends:
  "\<exists>t. snd (convert_dir E self b src root fls acc h) = h @ t \<and> (\<forall>e \<in> set t. \<not> is_Walk e)"
proof -
  obtain r h' where c: "convert_dir E self b src root fls acc h = (r, h')"
    by (cases "convert_dir E self b src root fls acc h") auto
  from convert_dir_trace [OF c] c show ?thesis by auto
qed

lemma convert_walk_entries:
  assumes "convert_walk E self b src acc h = Some y"
  shows "(\<exists>t. snd y = h @ t)
       \<and> (\<forall>pre rt ds fs post.
           snd y = h @ pre @ Walk src (Inr (Some (rt, ds, fs))) # post \<longrightarrow>
           (\<exists>acc' rest.
              snd y = snd (convert_dir E self b src rt fs acc'
                             (h @ pre @ [Walk src (Inr (Some (rt, ds, fs)))])) @ rest))"
  using assms
proof (induction rule: convert_walk.raw_induct [rotated 1, consumes 1])
  case (1 convert_walk' E self b src acc h y)
  show ?case
  proof (cases "walk_r E h src")
    case (Inl e)
    with 1(2) have y: "snd y = h @ [Walk src (Inl e)]" by auto
    have "\<And>pre rt ds fs post.
            [Walk src (Inl e)] \<noteq> pre @ Walk src (Inr (Some (rt, ds, fs))) # post"
    proof -
      fix pre rt ds fs post
      show "[Walk src (Inl e)] \<noteq> pre @ Walk src (Inr (Some (rt, ds, fs))) # post"
        by (cases pre) auto
    qed
    with y show ?thesis by simp
  next
    case (Inr item)
    show ?thesis
    proof (cases item)
      case None
      with Inr 1(2) have y: "snd y = h @ [Walk src (Inr None)]" by auto
      have "\<And>pre rt ds fs post.
              [Walk src (Inr None)] \<noteq> pre @ Walk src (Inr (Some (rt, ds, fs))) # post"
      proof -
        fix pre rt ds fs post
        show "[Walk src (Inr None)] \<noteq> pre @ Walk src (Inr (Some (rt, ds, fs))) # post"
          by (cases pre) auto
      qed
      with y show ?thesis by simp
    next
      case (Some triple)
      obtain root dirs fls where triple: "triple = (root, dirs, fls)" by (cases triple) auto
      let ?w = "Walk src (Inr (Some (root, dirs, fls)))"
      obtain r1 h1 where cd: "convert_dir E self b src root fls acc (h @ [?w]) = (r1, h1)"
        by (cases "convert_dir E self b src root fls acc (h @ [?w])") auto
      from convert_dir_extends [of E self b src root fls acc "h @ [?w]"] cd
      obtain t where t: "h1 = h @ ?w # t" and nw: "\<forall>e \<in> set t. \<not> is_Walk e"
        by auto
      have h1: "h1 = snd (convert_dir E self b src root fls acc (h @ [?w]))"
        using cd by simp
      have tail: "\<exists>t2. snd y = h1 @ t2
                    \<and> (\<forall>pre rt ds fs post.
                         snd y = h1 @ pre @ Walk src (Inr (Some (rt, ds, fs))) # post \<longrightarrow>
                         (\<exists>acc' rest.
                            snd y = snd (convert_dir E self b src rt fs acc'
                                      (h1 @ pre @ [Walk src (Inr (Some (rt, ds, fs)))])) @ rest))"
      proof (cases r1)
        case (Inl e)
        with 1(2) Inr Some triple cd have "snd y = h1" by auto
        then show ?thesis by simp
      next
        case r1: (Inr acc1)
        with 1(2) Inr Some triple cd
        have rec: "convert_walk' E self b src acc1 h1 = Some y" by simp
        from 1(1) [OF rec] show ?thesis by blast
      qed
      then obtain t2 where t2: "snd y = h1 @ t2"
        and later: "\<And>pre rt ds fs post.
                      snd y = h1 @ pre @ Walk src (Inr (Some (rt, ds, fs))) # post \<Longrightarrow>
                      \<exists>acc' rest.
                        snd y = snd (convert_dir E self b src rt fs acc'
                                  (h1 @ pre @ [Walk src (Inr (Some (rt, ds, fs)))])) @ rest"
        by blast
      have ext: "\<exists>t. snd y = h @ t" using t t2 by simp
      have ent: "\<exists>acc' rest.
              snd y = snd (convert_dir E self b src rt fs acc'
                             (h @ pre @ [Walk src (Inr (Some (rt, ds, fs)))])) @ rest"
        if dec: "snd y = h @ pre @ Walk src (Inr (Some (rt, ds, fs))) # post"
        for pre rt ds fs post
      proof (cases pre)
        case Nil
        with dec t t2 have "?w = Walk src (Inr (Some (rt, ds, fs)))" by simp
        then have eq: "rt = root" "ds = dirs" "fs = fls" by simp_all
        have "snd y = snd (convert_dir E self b src rt fs acc
                             (h @ pre @ [Walk src (Inr (Some (rt, ds, fs)))])) @ t2"
          using t2 h1 eq Nil by simp
        then show ?thesis by blast
      next
        case (Cons x pre0)
        let ?e = "Walk src (Inr (Some (rt, ds, fs)))"
        from dec t t2 Cons have x: "x = ?w" and eq: "t @ t2 = pre0 @ ?e # post" by simp_all
        from nw have "?e \<notin> set t" by auto
        from append_eq_split [OF eq this] obtain pre' where
          pre': "pre0 = t @ pre'" and t2': "t2 = pre' @ ?e # post" by blast
        from t2 t2' have "snd y = h1 @ pre' @ ?e # post" by simp
        from later [OF this] obtain acc' rest where
          "snd y = snd (convert_dir E self b src rt fs acc' (h1 @ pre' @ [?e])) @ rest"
          by blast
        moreover have "h1 @ pre' @ [?e] = h @ pre @ [?e]"
          using t Cons x pre' by simp
        ultimately show ?thesis by auto
      qed
      from ext ent show ?thesis by blast
    qed
  qed
qed

lemma convert_walk_returns:
  assumes fin: "\<forall>hw. n \<le> length (filter is_Walk hw)
                  \<longrightarrow> (\<forall>item. walk_r E hw src \<noteq> Inr (Some item))"
  shows "\<exists>y. convert_walk E self b src acc h = Some y"
proof (induction "n - length (filter is_Walk h)" arbitrary: acc h rule: less_induct)
  case less
  show ?case
  proof (cases "walk_r E h src")
    case (Inl e)
    then show ?thesis by (subst convert_walk.simps) simp
  next
    case (Inr item)
    show ?thesis
    proof (cases item)
      case None
      with Inr show ?thesis by (subst convert_walk.simps) simp
    next
      case (Some triple)
      obtain root dirs fls where triple: "triple = (root, dirs, fls)" by (cases triple) auto
      let ?w = "Walk src (Inr (Some (root, dirs, fls)))"
      from fin Inr Some have lt: "length (filter is_Walk h) < n"
        by (metis not_le_imp_less)
      obtain r1 h1 where cd: "convert_dir E self b src root fls acc (h @ [?w]) = (r1, h1)"
        by (cases "convert_dir E self b src root fls acc (h @ [?w])") auto
      from convert_dir_extends [of E self b src root fls acc "h @ [?w]"] cd
      obtain t where t: "h1 = h @ ?w # t" by auto
      then have "length (filter is_Walk h) < length (filter is_Walk h1)" by simp
      with lt have dec: "n - length (filter is_Walk h1) < n - length (filter is_Walk h)"
        by arith
      show ?thesis
      proof (cases r1)
        case (Inl e)
        with Inr Some triple cd show ?thesis by (subst convert_walk.simps) simp
      next
        case r1: (Inr acc1)
        from less [OF dec, of acc1] obtain y where
          "convert_walk E self b src acc1 h1 = Some y" by blast
        with Inr Some triple cd r1 show ?thesis by (subst convert_walk.simps) simp
      qed
    qed
  qed
qed

section \<open>The relative path of a directory of the traversal\<close>














section \<open>Mirroring the directories\<close>








section \<open>The protector\<close>

text \<open>
  C7. Whatever the path, once the document is opened \<^verbatim>\<open>protect\<close> saves it to the path
  it was opened from (opened with \<^verbatim>\<open>allow_overwriting_input\<close>), with an encryption
  whose owner password is the configured one, whose user password is empty, and whose
  permissions deny extraction, the four kinds of modification and both kinds of
  printing. The encryption does not depend on the path.
\<close>

theorem protect_fixed_permissions:
  assumes "pdf_open_r E h pdf_path True = Inr pdf"
  shows "\<exists>enc r rest.
           snd (protect E self pdf_path h) =
             h @ [PdfOpen pdf_path True (Inr pdf), PdfSave pdf pdf_path enc r] @ rest
         \<and> enc = protect_encryption self
         \<and> owner enc = owner_password self \<and> user enc = []
         \<and> \<not> extract' (allow enc) \<and> \<not> modify_annotation (allow enc)
         \<and> \<not> modify_assembly (allow enc) \<and> \<not> modify_form (allow enc)
         \<and> \<not> modify_other (allow enc) \<and> \<not> print_highres (allow enc)
         \<and> \<not> print_lowres (allow enc)"
proof (cases "pdf_save_r E (h @ [PdfOpen pdf_path True (Inr pdf)]) pdf pdf_path
                (protect_encryption self)")
  case None
  show ?thesis
  proof (cases "print_r E (h @ [PdfOpen pdf_path True (Inr pdf),
                   PdfSave pdf pdf_path (protect_encryption self) None]) (Msg_protected pdf_path)")
    case None
    with \<open>pdf_save_r E (h @ [PdfOpen pdf_path True (Inr pdf)]) pdf pdf_path
            (protect_encryption self) = None\<close> assms
    show ?thesis by (simp add: protect_def print_line_def protect_encryption_def)
  next
    case (Some e)
    with \<open>pdf_save_r E (h @ [PdfOpen pdf_path True (Inr pdf)]) pdf pdf_path
            (protect_encryption self) = None\<close> assms
    show ?thesis by (simp add: protect_def print_line_def protect_encryption_def)
  qed
next
  case (Some e)
  then show ?thesis
    using assms by (simp add: protect_def protect_encryption_def)
qed

theorem protect_fixed_permissions_witness:
  "pdf_open_r demo_env [] ''out/a/one.pdf'' True = Inr 0
   \<and> (\<exists>enc r rest.
         snd (protect demo_env \<lparr>owner_password = PStr ''secret''\<rparr> ''out/a/one.pdf'' []) =
           [] @ [PdfOpen ''out/a/one.pdf'' True (Inr 0), PdfSave 0 ''out/a/one.pdf'' enc r] @ rest
       \<and> enc = protect_encryption \<lparr>owner_password = PStr ''secret''\<rparr>
       \<and> owner enc = owner_password \<lparr>owner_password = PStr ''secret''\<rparr> \<and> user enc = []
       \<and> \<not> extract' (allow enc) \<and> \<not> modify_annotation (allow enc)
       \<and> \<not> modify_assembly (allow enc) \<and> \<not> modify_form (allow enc)
       \<and> \<not> modify_other (allow enc) \<and> \<not> print_highres (allow enc)
       \<and> \<not> print_lowres (allow enc))"
proof -
  have o: "pdf_open_r demo_env [] ''out/a/one.pdf'' True = Inr 0"
    by (simp add: demo_env_def)
  show ?thesis
    using o protect_fixed_permissions [OF o, of "\<lparr>owner_password = PStr ''secret''\<rparr>"]
    by blast
qed

lemma protect_cases:
  "protect E self pdf_path h = (r, h') \<Longrightarrow>
     (\<exists>e. r = Inl e \<and> h' = h @ [PdfOpen pdf_path True (Inl e)])
   \<or> (\<exists>e pdf. r = Inl e \<and>
         h' = h @ [PdfOpen pdf_path True (Inr pdf),
                   PdfSave pdf pdf_path (protect_encryption self) (Some e), PdfClose pdf])
   \<or> (\<exists>e pdf. r = Inl e \<and>
         h' = h @ [PdfOpen pdf_path True (Inr pdf),
                   PdfSave pdf pdf_path (protect_encryption self) None,
                   PrintRaised (Msg_protected pdf_path) e, PdfClose pdf])
   \<or> (\<exists>pdf. r = Inr () \<and> h' = h @ protect_events self pdf_path pdf)"
  by (auto simp: protect_def print_line_def protect_events_def Let_def
      split: sum.splits option.splits)

lemma protect_all_append_fail:
  assumes "protect_all E self before h = (Inr u, h1)"
    and "protect E self pdf_path h1 = (Inl e, h2)"
  shows "protect_all E self (before @ pdf_path # rest) h = (Inl e, h2)"
  using assms
proof (induction before arbitrary: h)
  case Nil
  then show ?case by simp
next
  case (Cons p before)
  obtain r1 h' where p1: "protect E self p h = (r1, h')" by (cases "protect E self p h") auto
  with Cons.prems(1) obtain u1 where r1: "r1 = Inr u1" by (cases r1) auto
  with Cons.prems(1) p1 have "protect_all E self before h' = (Inr u, h1)" by simp
  from Cons.IH [OF this Cons.prems(2)] p1 r1 show ?case by simp
qed

section \<open>The orchestrator\<close>

lemma demo_convert_unwritable:
  "\<exists>h. convert demo_env_unwritable demo_converter [Mkdir ''out'' True True None]
          = Some (Inr [''out/a/one.pdf'', ''out/a/b/two.pdf''], h)"
proof -
  have "map_option fst (convert demo_env_unwritable demo_converter [Mkdir ''out'' True True None])
          = Some (Inr [''out/a/one.pdf'', ''out/a/b/two.pdf''])"
    by (simp add: demo_env_unwritable_def demo_eval)
  then show ?thesis
    by (cases "convert demo_env_unwritable demo_converter [Mkdir ''out'' True True None]") auto
qed

text \<open>
  C6. When the files before \<open>pdf_path\<close> in the converted list are protected and
  \<^verbatim>\<open>protect\<close> raises on \<open>pdf_path\<close>, \<^verbatim>\<open>run\<close> ends with that exception. The last calls of
  the run are those of the failed \<^verbatim>\<open>protect\<close> (the open that raised; or the open, the save
  that raised and the close; or the open, the save, the \<^verbatim>\<open>print\<close> that raised and the
  close): nothing is done for the files after it.
\<close>

theorem protection_failure_aborts:
  assumes "Config_get (App_config self) ''dist_dir'' = Inr (PStr dist)"
    and "mkdir_answer E dist True True h0 = None"
    and "convert E (converter self) (h0 @ [Mkdir dist True True None])
           = Some (Inr (before @ pdf_path # rest), h1)"
    and "protect_all E (protector self) before h1 = (Inr (), h2)"
    and "protect E (protector self) pdf_path h2 = (Inl e, h3)"
  shows "run E self h0 = Some (Inl e, h3)
       \<and> (h3 = h2 @ [PdfOpen pdf_path True (Inl e)]
          \<or> (\<exists>pdf. h3 = h2 @ [PdfOpen pdf_path True (Inr pdf),
                                PdfSave pdf pdf_path (protect_encryption (protector self)) (Some e),
                                PdfClose pdf])
          \<or> (\<exists>pdf. h3 = h2 @ [PdfOpen pdf_path True (Inr pdf),
                                PdfSave pdf pdf_path (protect_encryption (protector self)) None,
                                PrintRaised (Msg_protected pdf_path) e,
                                PdfClose pdf]))"
proof
  from protect_all_append_fail [OF assms(4,5)]
  have "protect_all E (protector self) (before @ pdf_path # rest) h1 = (Inl e, h3)" .
  with assms(1-3) show "run E self h0 = Some (Inl e, h3)"
    by (simp add: run_def path_mkdir_def)
next
  from protect_cases [OF assms(5)]
  show "h3 = h2 @ [PdfOpen pdf_path True (Inl e)]
          \<or> (\<exists>pdf. h3 = h2 @ [PdfOpen pdf_path True (Inr pdf),
                                PdfSave pdf pdf_path (protect_encryption (protector self)) (Some e),
                                PdfClose pdf])
          \<or> (\<exists>pdf. h3 = h2 @ [PdfOpen pdf_path True (Inr pdf),
                                PdfSave pdf pdf_path (protect_encryption (protector self)) None,
                                PrintRaised (Msg_protected pdf_path) e,
                                PdfClose pdf])"
    by auto
qed

theorem protection_failure_aborts_witness:
  "\<exists>h1 h3.
     Config_get (App_config demo_app) ''dist_dir'' = Inr (PStr ''out'')
   \<and> mkdir_answer demo_env_unwritable ''out'' True True [] = None
   \<and> convert demo_env_unwritable (converter demo_app) ([] @ [Mkdir ''out'' True True None])
       = Some (Inr ([] @ ''out/a/one.pdf'' # [''out/a/b/two.pdf'']), h1)
   \<and> protect_all demo_env_unwritable (protector demo_app) [] h1 = (Inr (), h1)
   \<and> protect demo_env_unwritable (protector demo_app) ''out/a/one.pdf'' h1
       = (Inl (PdfError ''unwritable''), h3)
   \<and> run demo_env_unwritable demo_app [] = Some (Inl (PdfError ''unwritable''), h3)
   \<and> h3 = h1 @ [PdfOpen ''out/a/one.pdf'' True (Inr (length h1)),
                PdfSave (length h1) ''out/a/one.pdf'' (protect_encryption (protector demo_app))
                  (Some (PdfError ''unwritable'')),
                PdfClose (length h1)]"
proof -
  from demo_convert_unwritable obtain h1 where
    "convert demo_env_unwritable demo_converter [Mkdir ''out'' True True None]
          = Some (Inr [''out/a/one.pdf'', ''out/a/b/two.pdf''], h1)"
    by blast
  then have c: "convert demo_env_unwritable (converter demo_app) ([] @ [Mkdir ''out'' True True None])
       = Some (Inr ([] @ ''out/a/one.pdf'' # [''out/a/b/two.pdf'']), h1)"
    by (simp add: demo_app_def)
  define h3 where "h3 = h1 @ [PdfOpen ''out/a/one.pdf'' True (Inr (length h1)),
                PdfSave (length h1) ''out/a/one.pdf'' (protect_encryption (protector demo_app))
                  (Some (PdfError ''unwritable'')),
                PdfClose (length h1)]"
  have g: "Config_get (App_config demo_app) ''dist_dir'' = Inr (PStr ''out'')"
    by (simp add: demo_app_def demo_config_def)
  have m: "mkdir_answer demo_env_unwritable ''out'' True True [] = None"
    by (simp add: mkdir_answer_def demo_env_unwritable_def demo_env_def)
  have a: "protect_all demo_env_unwritable (protector demo_app) [] h1 = (Inr (), h1)"
    by simp
  have p: "protect demo_env_unwritable (protector demo_app) ''out/a/one.pdf'' h1
       = (Inl (PdfError ''unwritable''), h3)"
    by (simp add: protect_def demo_env_unwritable_def demo_env_def h3_def)
  from protection_failure_aborts [OF g m c a p]
  have "run demo_env_unwritable demo_app [] = Some (Inl (PdfError ''unwritable''), h3)"
    by blast
  with g m c a p h3_def show ?thesis by blast
qed

lemma convert_returns:
  assumes "\<forall>hw src. n \<le> length (filter is_Walk hw)
             \<longrightarrow> (\<forall>item. walk_r E hw src \<noteq> Inr (Some item))"
  shows "\<exists>rc h1 tc. convert E self h = Some (rc, h1) \<and> h1 = h @ tc"
proof -
  have fin: "\<forall>hw. n \<le> length (filter is_Walk hw)
               \<longrightarrow> (\<forall>item. walk_r E hw src \<noteq> Inr (Some item))" for src
    using assms by blast
  have w: "\<exists>rc h1 tc. convert_walk E self b src [] h = Some (rc, h1) \<and> h1 = h @ tc" for b src
  proof -
    from convert_walk_returns [OF fin, of self b src "[]" h] obtain y where
      y: "convert_walk E self b src [] h = Some y" by blast
    from convert_walk_entries [OF y] obtain t where "snd y = h @ t" by blast
    with y show ?thesis by (cases y) auto
  qed
  show ?thesis
  proof (cases "source_dir self")
    case (PStr src)
    with w [of False src] show ?thesis by (simp add: convert_def)
  next
    case (PBytes src)
    with w [of True src] show ?thesis by (simp add: convert_def)
  qed (simp_all add: convert_def)
qed

lemma protect_all_run:
  "protect_all E p fls h = (r, h') \<Longrightarrow>
   \<exists>pdfs hp. length pdfs \<le> length fls
     \<and> hp = h @ concat (map (\<lambda>(pdf_path, pdf). protect_events p pdf_path pdf) (zip fls pdfs))
     \<and> (if length pdfs = length fls then r = Inr () \<and> h' = hp
         else \<exists>e. r = Inl e \<and> protect E p (fls ! length pdfs) hp = (Inl e, h'))"
proof (induction fls arbitrary: h)
  case Nil
  then show ?case by auto
next
  case (Cons f fls)
  obtain r1 h1 where p1: "protect E p f h = (r1, h1)" by (cases "protect E p f h") auto
  show ?case
  proof (cases r1)
    case (Inl e)
    with Cons.prems p1 have "r = Inl e" "h' = h1" by simp_all
    with p1 Inl have
      "length ([]::nat list) \<le> length (f # fls)
       \<and> h = h @ concat (map (\<lambda>(pdf_path, pdf). protect_events p pdf_path pdf) (zip (f # fls) []))
       \<and> (if length ([]::nat list) = length (f # fls) then r = Inr () \<and> h' = h
           else \<exists>e. r = Inl e \<and> protect E p ((f # fls) ! length ([]::nat list)) h = (Inl e, h'))"
      by simp
    then show ?thesis by blast
  next
    case (Inr u)
    with Cons.prems p1 have rest: "protect_all E p fls h1 = (r, h')" by simp
    from protect_cases [OF p1] Inr obtain pdf where h1: "h1 = h @ protect_events p f pdf"
      by auto
    from Cons.IH [OF rest] obtain pdfs hp where
      len: "length pdfs \<le> length fls"
      and hp: "hp = h1 @ concat (map (\<lambda>(pdf_path, pdf). protect_events p pdf_path pdf)
                                    (zip fls pdfs))"
      and out: "if length pdfs = length fls then r = Inr () \<and> h' = hp
                else \<exists>e. r = Inl e \<and> protect E p (fls ! length pdfs) hp = (Inl e, h')"
      by blast
    have "length (pdf # pdfs) \<le> length (f # fls)
       \<and> hp = h @ concat (map (\<lambda>(pdf_path, pdf). protect_events p pdf_path pdf)
                             (zip (f # fls) (pdf # pdfs)))
       \<and> (if length (pdf # pdfs) = length (f # fls) then r = Inr () \<and> h' = hp
           else \<exists>e. r = Inl e \<and> protect E p ((f # fls) ! length (pdf # pdfs)) hp = (Inl e, h'))"
      using len hp out h1 by (auto split: if_splits)
    then show ?thesis by blast
  qed
qed

lemma demo_convert_after_mkdir:
  "\<exists>h. convert demo_env demo_converter [Mkdir ''out'' True True None]
          = Some (Inr [''out/a/one.pdf'', ''out/a/b/two.pdf''], h)"
proof -
  have "map_option fst (convert demo_env demo_converter [Mkdir ''out'' True True None])
          = Some (Inr [''out/a/one.pdf'', ''out/a/b/two.pdf''])"
    by (simp add: demo_eval)
  then show ?thesis
    by (cases "convert demo_env demo_converter [Mkdir ''out'' True True None]") auto
qed

text \<open>
  C5. With a destination root that is a string and a traversal that gives no more than
  \<open>n\<close> entries, \<^verbatim>\<open>run\<close> returns, and its calls are, in this order:
  \<^item> \<^verbatim>\<open>mkdir(parents=True, exist_ok=True)\<close> on the destination root. On a directory that
    is there the call returns and the directories are what they were. When the call
    raises, the run ends with that exception and nothing else is done. When it returns,
    the destination root and all its ancestors are there;
  \<^item> then the calls of one \<^verbatim>\<open>convert\<close>; when it raises, the run ends with that exception
    and no file is protected;
  \<^item> then, for the paths of the list \<^verbatim>\<open>convert\<close> returned, in the order of the list, the
    calls of one \<^verbatim>\<open>protect\<close> on each: either all of them, and the run returns, or all
    up to the first path on which \<^verbatim>\<open>protect\<close> raises, and the run ends with that
    exception.
\<close>

theorem run_sequence:
  assumes "Config_get (App_config self) ''dist_dir'' = Inr (PStr dist)"
    and "\<forall>hw src. n \<le> length (filter is_Walk hw)
           \<longrightarrow> (\<forall>item. walk_r E hw src \<noteq> Inr (Some item))"
  shows "(\<exists>r h. run E self h0 = Some (r, h)
       \<and> (\<forall>e. mkdir_answer E dist True True h0 = Some e \<longrightarrow>
               r = Inl e \<and> h = h0 @ [Mkdir dist True True (Some e)])
       \<and> (mkdir_answer E dist True True h0 = None \<longrightarrow>
            set (path_prefixes (path_key (cwd E) dist))
              \<subseteq> dirs_of E (h0 @ [Mkdir dist True True None])
          \<and> (\<exists>rc h1 tc.
                convert E (converter self) (h0 @ [Mkdir dist True True None]) = Some (rc, h1)
              \<and> h1 = h0 @ Mkdir dist True True None # tc
              \<and> (\<forall>e. rc = Inl e \<longrightarrow> r = Inl e \<and> h = h1)
              \<and> (\<forall>converted_files. rc = Inr converted_files \<longrightarrow>
                    (\<exists>pdfs hp.
                        length pdfs \<le> length converted_files
                      \<and> hp = h1 @ concat (map (\<lambda>(pdf_path, pdf).
                                                protect_events (protector self) pdf_path pdf)
                                            (zip converted_files pdfs))
                      \<and> (if length pdfs = length converted_files then r = Inr () \<and> h = hp
                          else \<exists>e. r = Inl e
                                 \<and> protect E (protector self)
                                     (converted_files ! length pdfs) hp = (Inl e, h)))))))
     \<and> (path_key (cwd E) dist \<in> dirs_of E h0 \<longrightarrow>
            mkdir_answer E dist True True h0 = None
          \<and> dirs_of E (h0 @ [Mkdir dist True True None]) = dirs_of E h0)"
proof
  let ?m = "Mkdir dist True True None"
  show "\<exists>r h. run E self h0 = Some (r, h)
       \<and> (\<forall>e. mkdir_answer E dist True True h0 = Some e \<longrightarrow>
               r = Inl e \<and> h = h0 @ [Mkdir dist True True (Some e)])
       \<and> (mkdir_answer E dist True True h0 = None \<longrightarrow>
            set (path_prefixes (path_key (cwd E) dist))
              \<subseteq> dirs_of E (h0 @ [Mkdir dist True True None])
          \<and> (\<exists>rc h1 tc.
                convert E (converter self) (h0 @ [Mkdir dist True True None]) = Some (rc, h1)
              \<and> h1 = h0 @ Mkdir dist True True None # tc
              \<and> (\<forall>e. rc = Inl e \<longrightarrow> r = Inl e \<and> h = h1)
              \<and> (\<forall>converted_files. rc = Inr converted_files \<longrightarrow>
                    (\<exists>pdfs hp.
                        length pdfs \<le> length converted_files
                      \<and> hp = h1 @ concat (map (\<lambda>(pdf_path, pdf).
                                                protect_events (protector self) pdf_path pdf)
                                            (zip converted_files pdfs))
                      \<and> (if length pdfs = length converted_files then r = Inr () \<and> h = hp
                          else \<exists>e. r = Inl e
                                 \<and> protect E (protector self)
                                     (converted_files ! length pdfs) hp = (Inl e, h))))))"
  proof (cases "mkdir_answer E dist True True h0")
    case (Some e)
    with assms(1) have "run E self h0 = Some (Inl e, h0 @ [Mkdir dist True True (Some e)])"
      by (simp add: run_def path_mkdir_def)
    with Some show ?thesis by simp
  next
    case None
    from convert_returns [OF assms(2), of "converter self" "h0 @ [?m]"] obtain rc h1 tc where
      c: "convert E (converter self) (h0 @ [?m]) = Some (rc, h1)" and h1: "h1 = h0 @ ?m # tc"
      by auto
    have pre: "set (path_prefixes (path_key (cwd E) dist)) \<subseteq> dirs_of E (h0 @ [?m])"
      by (rule mkdir_creates)
    have a: "\<forall>e. mkdir_answer E dist True True h0 = Some e \<longrightarrow>
               r = Inl e \<and> h = h0 @ [Mkdir dist True True (Some e)]" for r h
      using None by simp
    obtain r h where pa:
      "(case rc of Inl e \<Rightarrow> (Inl e, h1)
        | Inr converted_files \<Rightarrow> protect_all E (protector self) converted_files h1) = (r, h)"
      by (cases "case rc of Inl e \<Rightarrow> (Inl e, h1)
        | Inr converted_files \<Rightarrow> protect_all E (protector self) converted_files h1") auto
    from assms(1) None c pa have run: "run E self h0 = Some (r, h)"
      by (cases rc) (simp_all add: run_def path_mkdir_def)
    have l: "\<forall>e. rc = Inl e \<longrightarrow> r = Inl e \<and> h = h1"
      using pa by auto
    have cf: "\<forall>converted_files. rc = Inr converted_files \<longrightarrow>
                    (\<exists>pdfs hp.
                        length pdfs \<le> length converted_files
                      \<and> hp = h1 @ concat (map (\<lambda>(pdf_path, pdf).
                                                protect_events (protector self) pdf_path pdf)
                                            (zip converted_files pdfs))
                      \<and> (if length pdfs = length converted_files then r = Inr () \<and> h = hp
                          else \<exists>e. r = Inl e
                                 \<and> protect E (protector self)
                                     (converted_files ! length pdfs) hp = (Inl e, h)))"
    proof (intro allI impI)
      fix converted_files
      assume "rc = Inr converted_files"
      with pa have "protect_all E (protector self) converted_files h1 = (r, h)" by simp
      from protect_all_run [OF this]
      show "\<exists>pdfs hp.
                        length pdfs \<le> length converted_files
                      \<and> hp = h1 @ concat (map (\<lambda>(pdf_path, pdf).
                                                protect_events (protector self) pdf_path pdf)
                                            (zip converted_files pdfs))
                      \<and> (if length pdfs = length converted_files then r = Inr () \<and> h = hp
                          else \<exists>e. r = Inl e
                                 \<and> protect E (protector self)
                                     (converted_files ! length pdfs) hp = (Inl e, h))" .
    qed
    from c h1 l cf have inner: "\<exists>rc h1 tc.
                convert E (converter self) (h0 @ [Mkdir dist True True None]) = Some (rc, h1)
              \<and> h1 = h0 @ Mkdir dist True True None # tc
              \<and> (\<forall>e. rc = Inl e \<longrightarrow> r = Inl e \<and> h = h1)
              \<and> (\<forall>converted_files. rc = Inr converted_files \<longrightarrow>
                    (\<exists>pdfs hp.
                        length pdfs \<le> length converted_files
                      \<and> hp = h1 @ concat (map (\<lambda>(pdf_path, pdf).
                                                protect_events (protector self) pdf_path pdf)
                                            (zip converted_files pdfs))
                      \<and> (if length pdfs = length converted_files then r = Inr () \<and> h = hp
                          else \<exists>e. r = Inl e
                                 \<and> protect E (protector self)
                                     (converted_files ! length pdfs) hp = (Inl e, h))))"
      by (intro exI conjI)
    from pre inner have none: "mkdir_answer E dist True True h0 = None \<longrightarrow>
            set (path_prefixes (path_key (cwd E) dist))
              \<subseteq> dirs_of E (h0 @ [Mkdir dist True True None])
          \<and> (\<exists>rc h1 tc.
                convert E (converter self) (h0 @ [Mkdir dist True True None]) = Some (rc, h1)
              \<and> h1 = h0 @ Mkdir dist True True None # tc
              \<and> (\<forall>e. rc = Inl e \<longrightarrow> r = Inl e \<and> h = h1)
              \<and> (\<forall>converted_files. rc = Inr converted_files \<longrightarrow>
                    (\<exists>pdfs hp.
                        length pdfs \<le> length converted_files
                      \<and> hp = h1 @ concat (map (\<lambda>(pdf_path, pdf).
                                                protect_events (protector self) pdf_path pdf)
                                            (zip converted_files pdfs))
                      \<and> (if length pdfs = length converted_files then r = Inr () \<and> h = hp
                          else \<exists>e. r = Inl e
                                 \<and> protect E (protector self)
                                     (converted_files ! length pdfs) hp = (Inl e, h)))))"
      by (intro impI conjI)
    from run a [of r h] none show ?thesis
      by (intro exI [of _ r] exI [of _ h] conjI)
  qed
next
  show "path_key (cwd E) dist \<in> dirs_of E h0 \<longrightarrow>
            mkdir_answer E dist True True h0 = None
          \<and> dirs_of E (h0 @ [Mkdir dist True True None]) = dirs_of E h0"
    using mkdir_present [of E dist h0 True] by blast
qed

theorem run_sequence_witness:
  "Config_get (App_config demo_app) ''dist_dir'' = Inr (PStr ''out'')
   \<and> (\<forall>hw src item. \<not> (3 \<le> length (filter is_Walk hw)
                          \<and> walk_r demo_env hw src = Inr (Some item)))
   \<and> mkdir_answer demo_env ''out'' True True [] = None
   \<and> (\<exists>r h. run demo_env demo_app [] = Some (r, h)
       \<and> (\<forall>e. mkdir_answer demo_env ''out'' True True [] = Some e \<longrightarrow>
               r = Inl e \<and> h = [] @ [Mkdir ''out'' True True (Some e)])
       \<and> (mkdir_answer demo_env ''out'' True True [] = None \<longrightarrow>
            set (path_prefixes (path_key (cwd demo_env) ''out''))
              \<subseteq> dirs_of demo_env ([] @ [Mkdir ''out'' True True None])
          \<and> (\<exists>rc h1 tc.
                convert demo_env (converter demo_app) ([] @ [Mkdir ''out'' True True None])
                  = Some (rc, h1)
              \<and> h1 = [] @ Mkdir ''out'' True True None # tc
              \<and> (\<forall>e. rc = Inl e \<longrightarrow> r = Inl e \<and> h = h1)
              \<and> (\<forall>converted_files. rc = Inr converted_files \<longrightarrow>
                    (\<exists>pdfs hp.
                        length pdfs \<le> length converted_files
                      \<and> hp = h1 @ concat (map (\<lambda>(pdf_path, pdf).
                                                protect_events (protector demo_app) pdf_path pdf)
                                            (zip converted_files pdfs))
                      \<and> (if length pdfs = length converted_files then r = Inr () \<and> h = hp
                          else \<exists>e. r = Inl e
                                 \<and> protect demo_env (protector demo_app)
                                     (converted_files ! length pdfs) hp = (Inl e, h)))))))
   \<and> path_key (cwd demo_env) ''out'' = [''home'', ''user'', ''out'']
   \<and> set (path_prefixes [''home'', ''user'', ''out''])
        \<subseteq> dirs_of demo_env ([] @ [Mkdir ''out'' True True None])
   \<and> (\<exists>h1. convert demo_env (converter demo_app) [Mkdir ''out'' True True None]
               = Some (Inr [''out/a/one.pdf'', ''out/a/b/two.pdf''], h1)
          \<and> run demo_env demo_app [] =
              Some (Inr (),
                    h1 @ protect_events (protector demo_app) ''out/a/one.pdf'' (length h1)
                       @ protect_events (protector demo_app) ''out/a/b/two.pdf''
                           (length h1 + 4)))
   \<and> (\<forall>hw src item. \<not> (3 \<le> length (filter is_Walk hw)
                          \<and> walk_r demo_env_readonly hw src = Inr (Some item)))
   \<and> mkdir_answer demo_env_readonly ''out'' True True []
        = Some (OSError ''Read-only file system'')
   \<and> run demo_env_readonly demo_app [] =
        Some (Inl (OSError ''Read-only file system''),
              [] @ [Mkdir ''out'' True True (Some (OSError ''Read-only file system''))])
   \<and> path_key (cwd demo_env) ''out'' \<in> dirs_of demo_env [Mkdir ''out'' True True None]
   \<and> mkdir_answer demo_env ''out'' True True [Mkdir ''out'' True True None] = None
   \<and> dirs_of demo_env ([Mkdir ''out'' True True None] @ [Mkdir ''out'' True True None])
        = dirs_of demo_env [Mkdir ''out'' True True None]
   \<and> (\<exists>h1 h3. convert demo_env_unwritable (converter demo_app) [Mkdir ''out'' True True None]
                  = Some (Inr [''out/a/one.pdf'', ''out/a/b/two.pdf''], h1)
          \<and> protect demo_env_unwritable (protector demo_app)
               ([''out/a/one.pdf'', ''out/a/b/two.pdf''] ! length ([]::nat list)) h1
               = (Inl (PdfError ''unwritable''), h3)
          \<and> run demo_env_unwritable demo_app [] = Some (Inl (PdfError ''unwritable''), h3))"
proof -
  let ?m = "Mkdir ''out'' True True None"
  have g: "Config_get (App_config demo_app) ''dist_dir'' = Inr (PStr ''out'')"
    by (simp add: demo_app_def demo_config_def)
  have f: "\<forall>hw src. 3 \<le> length (filter is_Walk hw)
              \<longrightarrow> (\<forall>item. walk_r demo_env hw src \<noteq> Inr (Some item))"
    by (simp add: demo_env_def demo_walk_def Let_def)
  then have f': "\<forall>hw src item. \<not> (3 \<le> length (filter is_Walk hw)
                          \<and> walk_r demo_env hw src = Inr (Some item))"
    by blast
  have m: "mkdir_answer demo_env ''out'' True True [] = None"
    by (simp add: mkdir_answer_def demo_env_def)
  note i1 = run_sequence [OF g f, of "[]", THEN conjunct1]
  have k: "path_key (cwd demo_env) ''out'' = [''home'', ''user'', ''out'']"
    by (simp add: demo_eval)
  from i1 m k have c1: "set (path_prefixes [''home'', ''user'', ''out''])
        \<subseteq> dirs_of demo_env ([] @ [?m])"
    by auto
  from demo_convert_after_mkdir obtain h1 where
    cv: "convert demo_env demo_converter [?m]
           = Some (Inr [''out/a/one.pdf'', ''out/a/b/two.pdf''], h1)" by blast
  then have cv': "convert demo_env (converter demo_app) [?m]
           = Some (Inr [''out/a/one.pdf'', ''out/a/b/two.pdf''], h1)"
    by (simp add: demo_app_def)
  have r1: "run demo_env demo_app [] =
              Some (protect_all demo_env (protector demo_app)
                      [''out/a/one.pdf'', ''out/a/b/two.pdf''] h1)"
    using g m cv' by (simp add: run_def path_mkdir_def)
  have pa: "protect_all demo_env (protector demo_app)
              [''out/a/one.pdf'', ''out/a/b/two.pdf''] h1 =
            (Inr (), h1 @ protect_events (protector demo_app) ''out/a/one.pdf'' (length h1)
                       @ protect_events (protector demo_app) ''out/a/b/two.pdf''
                           (length h1 + 4))"
    by (simp add: protect_def print_line_def protect_events_def demo_env_def)
  from cv' r1 pa have c2: "\<exists>h1. convert demo_env (converter demo_app) [?m]
               = Some (Inr [''out/a/one.pdf'', ''out/a/b/two.pdf''], h1)
          \<and> run demo_env demo_app [] =
              Some (Inr (),
                    h1 @ protect_events (protector demo_app) ''out/a/one.pdf'' (length h1)
                       @ protect_events (protector demo_app) ''out/a/b/two.pdf''
                           (length h1 + 4))"
    by simp
  have f2: "\<forall>hw src. 3 \<le> length (filter is_Walk hw)
              \<longrightarrow> (\<forall>item. walk_r demo_env_readonly hw src \<noteq> Inr (Some item))"
    by (simp add: demo_env_readonly_def demo_env_def demo_walk_def Let_def)
  then have f2': "\<forall>hw src item. \<not> (3 \<le> length (filter is_Walk hw)
                          \<and> walk_r demo_env_readonly hw src = Inr (Some item))"
    by blast
  have m2: "mkdir_answer demo_env_readonly ''out'' True True []
              = Some (OSError ''Read-only file system'')"
    by (simp add: mkdir_answer_def demo_env_readonly_def demo_eval)
  from run_sequence [OF g f2, of "[]", THEN conjunct1] m2
  have c3: "run demo_env_readonly demo_app [] =
        Some (Inl (OSError ''Read-only file system''),
              [] @ [Mkdir ''out'' True True (Some (OSError ''Read-only file system''))])"
    by auto
  have p3: "path_key (cwd demo_env) ''out'' \<in> dirs_of demo_env [?m]"
    by (simp add: demo_eval)
  from run_sequence [OF g f, of "[?m]", THEN conjunct2] p3
  have c4: "mkdir_answer demo_env ''out'' True True [?m] = None"
    and c5: "dirs_of demo_env ([?m] @ [?m]) = dirs_of demo_env [?m]"
    by blast+
  from demo_convert_unwritable obtain hu where
    cu: "convert demo_env_unwritable demo_converter [?m]
           = Some (Inr [''out/a/one.pdf'', ''out/a/b/two.pdf''], hu)" by blast
  then have cu': "convert demo_env_unwritable (converter demo_app) [?m]
           = Some (Inr [''out/a/one.pdf'', ''out/a/b/two.pdf''], hu)"
    by (simp add: demo_app_def)
  define h3 where "h3 = hu @ [PdfOpen ''out/a/one.pdf'' True (Inr (length hu)),
                PdfSave (length hu) ''out/a/one.pdf'' (protect_encryption (protector demo_app))
                  (Some (PdfError ''unwritable'')),
                PdfClose (length hu)]"
  have mu: "mkdir_answer demo_env_unwritable ''out'' True True [] = None"
    by (simp add: mkdir_answer_def demo_env_unwritable_def demo_env_def)
  have pu: "protect demo_env_unwritable (protector demo_app) ''out/a/one.pdf'' hu
       = (Inl (PdfError ''unwritable''), h3)"
    by (simp add: protect_def demo_env_unwritable_def demo_env_def h3_def)
  have ru: "run demo_env_unwritable demo_app [] = Some (Inl (PdfError ''unwritable''), h3)"
    using g mu cu' pu by (simp add: run_def path_mkdir_def)
  from cu' pu ru have c6: "\<exists>h1 h3. convert demo_env_unwritable (converter demo_app) [?m]
                  = Some (Inr [''out/a/one.pdf'', ''out/a/b/two.pdf''], h1)
          \<and> protect demo_env_unwritable (protector demo_app)
               ([''out/a/one.pdf'', ''out/a/b/two.pdf''] ! length ([]::nat list)) h1
               = (Inl (PdfError ''unwritable''), h3)
          \<and> run demo_env_unwritable demo_app [] = Some (Inl (PdfError ''unwritable''), h3)"
    by simp
  show ?thesis
    using g f' m i1 k c1 c2 f2' m2 c3 p3 c4 c5 c6
    by (intro conjI)
qed

end
